theory Spec2Isabelle
  imports Complex_Main "HOL-Library.Sublist"
begin

section \<open>Python values used by \<open>toyolo.py\<close>\<close>

text \<open>
  The exceptions the script can raise (\<open>EmptyDataError\<close> is the one of
  \<open>pandas.read_csv\<close> on a file without data). None of them is caught, except the
  \<open>IndexError\<close> of the ball lookup in \<open>process_data\<close>.
\<close>

datatype py_error =
  KeyError | ValueError | IndexError | ZeroDivisionError | OverflowError | EmptyDataError

subsection \<open>Strings\<close>

text \<open>
  Python's \<open>sub in s\<close> on strings: \<open>sub\<close> occurs in \<open>s\<close> as a contiguous,
  case-sensitive run of characters.
\<close>

fun starts_with :: "string \<Rightarrow> string \<Rightarrow> bool" where
  "starts_with [] s = True"
| "starts_with (c # cs) [] = False"
| "starts_with (c # cs) (d # ds) = (c = d \<and> starts_with cs ds)"

fun py_in :: "string \<Rightarrow> string \<Rightarrow> bool" where
  "py_in sub [] = (sub = [])"
| "py_in sub (d # ds) = (starts_with sub (d # ds) \<or> py_in sub ds)"

text \<open>\<open>str.lower\<close> on ASCII letters (what \<open>configparser\<close> applies to option names).\<close>

definition lower_char :: "char \<Rightarrow> char" where
  "lower_char c =
     (case map_of (zip ''ABCDEFGHIJKLMNOPQRSTUVWXYZ'' ''abcdefghijklmnopqrstuvwxyz'') c of
        None \<Rightarrow> c
      | Some l \<Rightarrow> l)"

definition py_lower :: "string \<Rightarrow> string" where
  "py_lower s = map lower_char s"

text \<open>\<open>str(n)\<close> for an integer: decimal digits, a leading \<open>-\<close> when negative.\<close>

definition digit_char :: "nat \<Rightarrow> char" where
  "digit_char d = ''0123456789'' ! d"

fun str_nat :: "nat \<Rightarrow> string" where
  "str_nat n = (if n < 10 then [digit_char n] else str_nat (n div 10) @ [digit_char (n mod 10)])"

declare str_nat.simps [simp del]

definition str_int :: "int \<Rightarrow> string" where
  "str_int i = (if i < 0 then CHR ''-'' # str_nat (nat (- i)) else str_nat (nat i))"

text \<open>
  \<open>int(s)\<close> for a string, base 10: surrounding whitespace is stripped, one optional
  sign, then decimal digits in which single underscores may separate digits. Anything
  else raises \<open>ValueError\<close>. (ASCII text; the limit on the number of digits of recent
  interpreters is not modelled.)
\<close>

definition is_space :: "char \<Rightarrow> bool" where
  "is_space c = (let n = (of_char c :: nat) in (9 \<le> n \<and> n \<le> 13) \<or> (28 \<le> n \<and> n \<le> 32))"

definition is_digit :: "char \<Rightarrow> bool" where
  "is_digit c = (let n = (of_char c :: nat) in 48 \<le> n \<and> n \<le> 57)"

definition digit_val :: "char \<Rightarrow> nat" where
  "digit_val c = (of_char c :: nat) - 48"

definition py_strip :: "string \<Rightarrow> string" where
  "py_strip s = rev (dropWhile is_space (rev (dropWhile is_space s)))"

fun parse_digits :: "string \<Rightarrow> nat \<Rightarrow> nat option" where
  "parse_digits [] acc = Some acc"
| "parse_digits (c # cs) acc =
     (if is_digit c then parse_digits cs (10 * acc + digit_val c)
      else if c = CHR ''_'' then
        (case cs of
           [] \<Rightarrow> None
         | d # ds \<Rightarrow> if is_digit d then parse_digits ds (10 * acc + digit_val d) else None)
      else None)"

definition parse_unsigned :: "string \<Rightarrow> nat option" where
  "parse_unsigned s =
     (case s of
        [] \<Rightarrow> None
      | c # cs \<Rightarrow> if is_digit c then parse_digits cs (digit_val c) else None)"

definition py_int :: "string \<Rightarrow> py_error + int" where
  "py_int s =
     (case py_strip s of
        [] \<Rightarrow> Inl ValueError
      | c # cs \<Rightarrow>
          if c = CHR ''-'' then
            (case parse_unsigned cs of None \<Rightarrow> Inl ValueError | Some n \<Rightarrow> Inr (- int n))
          else if c = CHR ''+'' then
            (case parse_unsigned cs of None \<Rightarrow> Inl ValueError | Some n \<Rightarrow> Inr (int n))
          else
            (case parse_unsigned (c # cs) of None \<Rightarrow> Inl ValueError | Some n \<Rightarrow> Inr (int n)))"

subsection \<open>Dictionaries\<close>

text \<open>
  A Python \<open>dict\<close> keeps its keys in insertion order, and \<open>process_data\<close> reads
  that order when it looks for the ball. So a dictionary is an association list:
  assigning to a new key appends, assigning to an old key replaces in place.
\<close>

type_synonym ('k, 'v) dict = "('k \<times> 'v) list"

fun dict_set :: "('k, 'v) dict \<Rightarrow> 'k \<Rightarrow> 'v \<Rightarrow> ('k, 'v) dict" where
  "dict_set [] k v = [(k, v)]"
| "dict_set ((k', v') # d) k v =
     (if k' = k then (k, v) # d else (k', v') # dict_set d k v)"

definition dict_get :: "('k, 'v) dict \<Rightarrow> 'k \<Rightarrow> py_error + 'v" where
  "dict_get d k = (case map_of d k of None \<Rightarrow> Inl KeyError | Some v \<Rightarrow> Inr v)"

section \<open>Configuration files\<close>

text \<open>
  \<open>configparser\<close> is a library: the model starts from what
  \<open>ConfigParser.read\<close> leaves behind, a mapping from section names to the options of
  the section (its values as \<open>get\<close> returns them, the defaults included). Option
  names are stored in lower case and looked up in lower case. A file that is missing or
  has no such section is a mapping without the section; \<open>config[s]\<close> and
  \<open>config[s][k]\<close> raise \<open>KeyError\<close> for a missing section or option.
\<close>

type_synonym cfg_section = "string \<rightharpoonup> string"
type_synonym config = "string \<rightharpoonup> cfg_section"

definition get_section :: "config \<Rightarrow> string \<Rightarrow> py_error + cfg_section" where
  "get_section cfg name = (case cfg name of None \<Rightarrow> Inl KeyError | Some sec \<Rightarrow> Inr sec)"

definition get_option :: "cfg_section \<Rightarrow> string \<Rightarrow> py_error + string" where
  "get_option sec key = (case sec (py_lower key) of None \<Rightarrow> Inl KeyError | Some v \<Rightarrow> Inr v)"

subsection \<open>\<open>parse_gameinfo\<close>\<close>

text \<open>The \<open>if\<close>/\<open>elif\<close> chain of the loop body: the category code of a role string.\<close>

definition role_category :: "string \<Rightarrow> int" where
  "role_category v =
     (if py_in ''goalkeeper'' v then 1
      else if py_in ''player'' v then 2
      else if py_in ''referee'' v then 3
      else 0)"

text \<open>The key of the loop body, \<open>f"trackletID_{i}"\<close>.\<close>

definition tracklet_key :: "int \<Rightarrow> string" where
  "tracklet_key i = ''trackletID_'' @ str_int i"

text \<open>
  The loop \<open>for i in range(1, num_tracklets + 1)\<close>, over the list of its indices. The
  state is the pair of dictionaries \<open>(tracklets, id_map)\<close>; a missing key ends the
  function with \<open>KeyError\<close>.
\<close>

fun gameinfo_loop ::
  "cfg_section \<Rightarrow> int list \<Rightarrow> (int, string) dict \<times> (int, int) dict
     \<Rightarrow> py_error + ((int, string) dict \<times> (int, int) dict)" where
  "gameinfo_loop sec [] st = Inr st"
| "gameinfo_loop sec (i # rest) (tracklets, id_map) =
     (case get_option sec (tracklet_key i) of
        Inl e \<Rightarrow> Inl e
      | Inr v \<Rightarrow>
          gameinfo_loop sec rest (dict_set tracklets i v, dict_set id_map i (role_category v)))"

definition parse_gameinfo ::
  "config \<Rightarrow> py_error + ((int, string) dict \<times> (int, int) dict)" where
  "parse_gameinfo cfg =
     (case get_section cfg ''Sequence'' of
        Inl e \<Rightarrow> Inl e
      | Inr sec \<Rightarrow>
          (case get_option sec ''num_tracklets'' of
             Inl e \<Rightarrow> Inl e
           | Inr s \<Rightarrow>
               (case py_int s of
                  Inl e \<Rightarrow> Inl e
                | Inr num_tracklets \<Rightarrow> gameinfo_loop sec [1..num_tracklets] ([], []))))"

text \<open>
  The ball lookup of \<open>process_data\<close>: the first key, in the dictionary's order, whose
  value is \<open>"ball;1"\<close>; the \<open>IndexError\<close> of an empty list is caught and gives
  \<open>None\<close>.
\<close>

definition find_ball_id :: "(int, string) dict \<Rightarrow> int option" where
  "find_ball_id tracklets =
     (case filter (\<lambda>(key, v). v = ''ball;1'') tracklets of
        [] \<Rightarrow> None
      | (key, v) # rest \<Rightarrow> Some key)"

section \<open>Floats\<close>

text \<open>
  A Python \<open>float\<close> is an IEEE 754 binary64 number. The script only produces floats
  by dividing one \<open>int\<close> by another, so infinities and NaN never arise: a float here
  is a sign, a mantissa \<open>m\<close> and an exponent \<open>e\<close>, with value
  \<open>\<plusminus> m * 2 ^ e\<close>. The representation is kept canonical: \<open>m = 0\<close> and
  \<open>e = 0\<close> for a zero, \<open>2 ^ 52 \<le> m < 2 ^ 53\<close> and \<open>-1074 \<le> e \<le> 971\<close>
  for a normal number, \<open>m < 2 ^ 52\<close> and \<open>e = -1074\<close> for a subnormal one.
\<close>

datatype pyfloat = PyFloat (negative: bool) (mantissa: nat) (exponent: int)

definition float_value :: "pyfloat \<Rightarrow> rat" where
  "float_value f =
     (if negative f then - 1 else 1) * of_nat (mantissa f) * 2 powi (exponent f)"

text \<open>\<open>int.bit_length()\<close> of a non-negative integer.\<close>

fun bit_length :: "nat \<Rightarrow> nat" where
  "bit_length n = (if n = 0 then 0 else Suc (bit_length (n div 2)))"

declare bit_length.simps [simp del]

text \<open>The integer nearest to \<open>num / den\<close>, a tie going to the even one.\<close>

definition round_half_even :: "nat \<Rightarrow> nat \<Rightarrow> nat" where
  "round_half_even num den =
     (let q = num div den; r = num mod den
      in if den < 2 * r \<or> (2 * r = den \<and> odd q) then q + 1 else q)"

text \<open>\<open>\<lfloor>log\<^sub>2 (a / b)\<rfloor>\<close> for positive \<open>a\<close> and \<open>b\<close>, from their bit lengths.\<close>

definition floor_log2_quot :: "nat \<Rightarrow> nat \<Rightarrow> int" where
  "floor_log2_quot a b =
     (let d = int (bit_length a) - int (bit_length b)
      in if b * 2 ^ nat d \<le> a * 2 ^ nat (- d) then d else d - 1)"

text \<open>
  \<open>a / b\<close> on two \<open>int\<close>s (true division). The interpreter returns the float
  nearest to the exact quotient, ties to even; it raises \<open>ZeroDivisionError\<close> for a
  zero divisor and \<open>OverflowError\<close> when the rounded quotient is \<open>2 ^ 1024\<close> or
  more. A zero dividend gives a zero whose sign is the sign of the divisor.
\<close>

definition py_truediv :: "int \<Rightarrow> int \<Rightarrow> py_error + pyfloat" where
  "py_truediv a b =
     (if b = 0 then Inl ZeroDivisionError
      else
        let neg = ((a < 0) \<noteq> (b < 0)) in
        if a = 0 then Inr (PyFloat neg 0 0)
        else
          let n = nat \<bar>a\<bar>;
              d = nat \<bar>b\<bar>;
              e = max (floor_log2_quot n d - 52) (- 1074);
              m = round_half_even (n * 2 ^ nat (- e)) (d * 2 ^ nat e)
          in if m = 0 then Inr (PyFloat neg 0 0)
             else if m = 2 ^ 53 then
               (if 971 < e + 1 then Inl OverflowError else Inr (PyFloat neg (2 ^ 52) (e + 1)))
             else
               (if 971 < e then Inl OverflowError else Inr (PyFloat neg m e)))"

subsection \<open>\<open>str\<close> of a float\<close>

text \<open>
  \<open>str(x)\<close> of a float is \<open>repr(x)\<close>: the shortest decimal numeral that reads
  back as \<open>x\<close> (the nearest to \<open>x\<close> if there are several), printed in positional
  notation when its decimal point position \<open>p\<close> satisfies \<open>-4 < p \<le> 16\<close> and with
  an exponent otherwise.

  A decimal \<open>c * 10 ^ k\<close> reads back as the float \<open>m * 2 ^ e\<close> when it lies between
  the midpoints to the two neighbouring floats; a midpoint itself reads back as the
  neighbour with the even mantissa. In units of \<open>2 ^ (e - 2)\<close> the float is \<open>4 * m\<close>,
  the upper midpoint \<open>4 * m + 2\<close> and the lower one \<open>4 * m - 2\<close>, or \<open>4 * m - 1\<close>
  at a power of two, where the floats below are twice as dense.
\<close>

definition reads_back :: "nat \<Rightarrow> int \<Rightarrow> nat \<Rightarrow> int \<Rightarrow> bool" where
  "reads_back m e c k =
     (let lo = 4 * m - (if m = 2 ^ 52 \<and> - 1074 < e then 1 else 2);
          hi = 4 * m + 2;
          x = c * 10 ^ nat k * 2 ^ nat (2 - e);
          u = 2 ^ nat (e - 2) * 10 ^ nat (- k)
      in if even m then lo * u \<le> x \<and> x \<le> hi * u else lo * u < x \<and> x < hi * u)"

definition decimal_length :: "nat \<Rightarrow> nat" where
  "decimal_length n = length (str_nat n)"

text \<open>
  The position \<open>p\<close> of the decimal point of \<open>num / den\<close>:
  \<open>10 ^ (p - 1) \<le> num / den < 10 ^ p\<close>.
\<close>

definition decimal_point :: "nat \<Rightarrow> nat \<Rightarrow> int" where
  "decimal_point num den =
     (let g = int (decimal_length num) - int (decimal_length den)
      in if den * 10 ^ nat g \<le> num * 10 ^ nat (- g) then g + 1 else g)"

text \<open>
  The decimals with \<open>n\<close> significant digits next to \<open>m * 2 ^ e\<close>, below and above:
  the one that reads back, the nearer one if both do (the even one on a tie), none if
  neither does.
\<close>

definition try_digits :: "nat \<Rightarrow> int \<Rightarrow> int \<Rightarrow> nat \<Rightarrow> nat option" where
  "try_digits m e p n =
     (let k = p - int n;
          num = m * 2 ^ nat e * 10 ^ nat (- k);
          den = 2 ^ nat (- e) * 10 ^ nat k;
          c = num div den;
          r = num mod den;
          below = reads_back m e c k;
          above = reads_back m e (c + 1) k
      in if below \<and> above then
           (if 2 * r < den \<or> (2 * r = den \<and> even c) then Some c else Some (c + 1))
         else if below then Some c
         else if above then Some (c + 1)
         else None)"

text \<open>
  The search for the shortest numeral: \<open>n\<close> digits are tried, then \<open>n + 1\<close>, at most
  \<open>todo\<close> times; after that the nearest decimal with \<open>n\<close> digits is taken (17 digits
  always read back). The result is the integer of the digits and its exponent of ten.
\<close>

fun shortest_decimal :: "nat \<Rightarrow> int \<Rightarrow> int \<Rightarrow> nat \<Rightarrow> nat \<Rightarrow> nat \<times> int" where
  "shortest_decimal m e p n 0 =
     (round_half_even (m * 2 ^ nat e * 10 ^ nat (int n - p))
        (2 ^ nat (- e) * 10 ^ nat (p - int n)),
      p - int n)"
| "shortest_decimal m e p n (Suc todo) =
     (case try_digits m e p n of
        Some c \<Rightarrow> (c, p - int n)
      | None \<Rightarrow> shortest_decimal m e p (Suc n) todo)"

definition strip_zeros :: "string \<Rightarrow> string" where
  "strip_zeros s = rev (dropWhile (\<lambda>c. c = CHR ''0'') (rev s))"

text \<open>The exponent part: a sign and at least two digits.\<close>

definition exponent_str :: "int \<Rightarrow> string" where
  "exponent_str x =
     (if x < 0 then ''-'' else ''+'') @ (if \<bar>x\<bar> < 10 then ''0'' else []) @ str_nat (nat \<bar>x\<bar>)"

definition format_repr :: "string \<Rightarrow> int \<Rightarrow> string" where
  "format_repr digits p =
     (if p \<le> - 4 \<or> 16 < p then
        hd digits # (if tl digits = [] then [] else CHR ''.'' # tl digits)
          @ ''e'' @ exponent_str (p - 1)
      else if p \<le> 0 then ''0.'' @ replicate (nat (- p)) CHR ''0'' @ digits
      else if int (length digits) \<le> p then
        digits @ replicate (nat p - length digits) CHR ''0'' @ ''.0''
      else take (nat p) digits @ ''.'' @ drop (nat p) digits)"

definition float_str :: "pyfloat \<Rightarrow> string" where
  "float_str f =
     (if negative f then ''-'' else []) @
     (if mantissa f = 0 then ''0.0''
      else
        let m = mantissa f;
            e = exponent f;
            p = decimal_point (m * 2 ^ nat e) (2 ^ nat (- e));
            (c, k) = shortest_decimal m e p 1 16;
            digits = str_nat c
        in format_repr (strip_zeros digits) (k + int (length digits)))"

section \<open>Geometry\<close>

text \<open>Sequencing of computations that may raise: the first exception ends the lot.\<close>

definition bind_err :: "py_error + 'a \<Rightarrow> ('a \<Rightarrow> py_error + 'b) \<Rightarrow> py_error + 'b" where
  "bind_err r f = (case r of Inl e \<Rightarrow> Inl e | Inr v \<Rightarrow> f v)"

text \<open>
  \<open>rectangle_to_polygon_normalized\<close>: the corners first, then the eight divisions in
  the order of the source, then the list.
\<close>

definition rectangle_to_polygon_normalized ::
  "int \<Rightarrow> int \<Rightarrow> int \<Rightarrow> int \<Rightarrow> int \<Rightarrow> int \<Rightarrow> py_error + pyfloat list" where
  "rectangle_to_polygon_normalized x0 y0 width height img_width img_height =
     (let x1 = x0 + width; y1 = y0;
          x2 = x1; y2 = y1 + height;
          x3 = x0; y3 = y0 + height
      in bind_err (py_truediv x0 img_width) (\<lambda>x0_norm.
         bind_err (py_truediv y0 img_height) (\<lambda>y0_norm.
         bind_err (py_truediv x1 img_width) (\<lambda>x1_norm.
         bind_err (py_truediv y1 img_height) (\<lambda>y1_norm.
         bind_err (py_truediv x2 img_width) (\<lambda>x2_norm.
         bind_err (py_truediv y2 img_height) (\<lambda>y2_norm.
         bind_err (py_truediv x3 img_width) (\<lambda>x3_norm.
         bind_err (py_truediv y3 img_height) (\<lambda>y3_norm.
         Inr [x0_norm, y0_norm, x1_norm, y1_norm, x2_norm, y2_norm, x3_norm, y3_norm])))))))))"

section \<open>\<open>process_data\<close>\<close>

text \<open>
  One row of the ground-truth table, with the names \<open>process_data\<close> gives to its
  first seven columns (further columns are never read). \<open>pandas\<close> is a library: the
  model starts from the rows that \<open>read_csv\<close> returns, all numeric, and takes the
  integers that \<open>int(row[...])\<close> yields.
\<close>

record gt_row =
  row_frame_id :: int
  row_track_id :: int
  row_x0 :: int
  row_y0 :: int
  row_width :: int
  row_height :: int
  row_gt :: int

text \<open>The label directory: the content of each file in it, by file name.\<close>

type_synonym labels = "string \<rightharpoonup> string"

text \<open>\<open>" ".join(strs)\<close>.\<close>

fun join_space :: "string list \<Rightarrow> string" where
  "join_space [] = []"
| "join_space [s] = s"
| "join_space (s # t # rest) = s @ '' '' @ join_space (t # rest)"

text \<open>The text written for one object: \<open>str(idt) + " " + " ".join(map(str, polygon_coords)) + "\n"\<close>.\<close>

definition label_line :: "int \<Rightarrow> pyfloat list \<Rightarrow> string" where
  "label_line idt polygon_coords =
     str_int idt @ '' '' @ join_space (map float_str polygon_coords) @ [CHR 0x0A]"

text \<open>
  The body of \<open>for _, row in temp_df.iterrows()\<close>, on the text written to the open
  file so far. An exception leaves the loop with what has been written.
\<close>

fun write_rows ::
  "int option \<Rightarrow> (int, int) dict \<Rightarrow> int \<Rightarrow> int \<Rightarrow> gt_row list \<Rightarrow> string
     \<Rightarrow> py_error option \<times> string" where
  "write_rows ball_id id_map im_width im_height [] out = (None, out)"
| "write_rows ball_id id_map im_width im_height (row # rows) out =
     (if Some (row_track_id row) \<noteq> ball_id then
        (case dict_get id_map (row_track_id row) of
           Inl e \<Rightarrow> (Some e, out)
         | Inr idt \<Rightarrow>
             (case rectangle_to_polygon_normalized (row_x0 row) (row_y0 row)
                     (row_width row) (row_height row) im_width im_height of
                Inl e \<Rightarrow> (Some e, out)
              | Inr polygon_coords \<Rightarrow>
                  write_rows ball_id id_map im_width im_height rows
                    (out @ label_line idt polygon_coords)))
      else write_rows ball_id id_map im_width im_height rows out)"

text \<open>\<open>pd.read_csv(gt_path, header=None)\<close>: a file without data raises.\<close>

definition read_csv :: "gt_row list \<Rightarrow> py_error + gt_row list" where
  "read_csv gt = (if gt = [] then Inl EmptyDataError else Inr gt)"

text \<open>
  \<open>df.groupby("frame_id").get_group(frame_id)\<close>: the rows of the frame in the order of
  the table; \<open>KeyError\<close> when the table has no such group.
\<close>

definition get_group :: "gt_row list \<Rightarrow> int \<Rightarrow> py_error + gt_row list" where
  "get_group df frame_id =
     (case filter (\<lambda>r. row_frame_id r = frame_id) df of
        [] \<Rightarrow> Inl KeyError
      | r # rs \<Rightarrow> Inr (r # rs))"

text \<open>\<open>s.split(sep)[0]\<close>: the text before the first \<open>sep\<close>; an empty \<open>sep\<close> raises.\<close>

fun before_sep :: "string \<Rightarrow> string \<Rightarrow> string" where
  "before_sep sep [] = []"
| "before_sep sep (c # cs) = (if starts_with sep (c # cs) then [] else c # before_sep sep cs)"

definition split_first :: "string \<Rightarrow> string \<Rightarrow> py_error + string" where
  "split_first s sep = (if sep = [] then Inl ValueError else Inr (before_sep sep s))"

text \<open>
  The body of the loop over the images, for the base name of one image: from
  \<open>fname = ...\<close> to the end of the \<open>with\<close> block. The file is opened for writing
  (created, or emptied) only after the group of the frame has been found, and is closed
  with what has been written, also when a row raises.
\<close>

definition process_image ::
  "int option \<Rightarrow> (int, int) dict \<Rightarrow> int \<Rightarrow> int \<Rightarrow> string \<Rightarrow> gt_row list \<Rightarrow> string
     \<Rightarrow> labels \<Rightarrow> py_error option \<times> labels" where
  "process_image ball_id id_map im_width im_height ext gt basename label_dir =
     (case split_first basename ext of
        Inl e \<Rightarrow> (Some e, label_dir)
      | Inr fname \<Rightarrow>
          (case py_int fname of
             Inl e \<Rightarrow> (Some e, label_dir)
           | Inr frame_id \<Rightarrow>
               (case read_csv gt of
                  Inl e \<Rightarrow> (Some e, label_dir)
                | Inr df \<Rightarrow>
                    (case get_group df frame_id of
                       Inl e \<Rightarrow> (Some e, label_dir)
                     | Inr temp_df \<Rightarrow>
                         (let (err, out) = write_rows ball_id id_map im_width im_height temp_df []
                          in (err, label_dir(fname @ ''.txt'' \<mapsto> out)))))))"

text \<open>The loop over the images; the first exception ends it.\<close>

fun process_images ::
  "int option \<Rightarrow> (int, int) dict \<Rightarrow> int \<Rightarrow> int \<Rightarrow> string \<Rightarrow> gt_row list \<Rightarrow> string list
     \<Rightarrow> labels \<Rightarrow> py_error option \<times> labels" where
  "process_images ball_id id_map im_width im_height ext gt [] label_dir = (None, label_dir)"
| "process_images ball_id id_map im_width im_height ext gt (img # imgs) label_dir =
     (case process_image ball_id id_map im_width im_height ext gt img label_dir of
        (Some e, label_dir') \<Rightarrow> (Some e, label_dir')
      | (None, label_dir') \<Rightarrow>
          process_images ball_id id_map im_width im_height ext gt imgs label_dir')"

text \<open>
  \<open>process_data\<close> for one sequence directory, given what it reads there: the two
  configuration files, the ground-truth table, the base names of the images that
  \<open>glob\<close> lists, and the label directory left by an earlier run. The label directory is
  removed and created anew once both configuration files have been read.
\<close>

definition process_data ::
  "config \<Rightarrow> config \<Rightarrow> gt_row list \<Rightarrow> string list \<Rightarrow> labels \<Rightarrow> py_error option \<times> labels" where
  "process_data gameinfo seqinfo gt img_names old_labels =
     (case parse_gameinfo gameinfo of
        Inl e \<Rightarrow> (Some e, old_labels)
      | Inr (tracklets, id_map) \<Rightarrow>
          (let ball_id = find_ball_id tracklets in
           case get_section seqinfo ''Sequence'' of
             Inl e \<Rightarrow> (Some e, old_labels)
           | Inr info \<Rightarrow>
               (case bind_err (get_option info ''imwidth'') py_int of
                  Inl e \<Rightarrow> (Some e, old_labels)
                | Inr im_width \<Rightarrow>
                    (case bind_err (get_option info ''imheight'') py_int of
                       Inl e \<Rightarrow> (Some e, old_labels)
                     | Inr im_height \<Rightarrow>
                         (case get_option info ''imext'' of
                            Inl e \<Rightarrow> (Some e, old_labels)
                          | Inr ext \<Rightarrow>
                              (case get_option info ''imdir'' of
                                 Inl e \<Rightarrow> (Some e, old_labels)
                               | Inr imdir \<Rightarrow>
                                   process_images ball_id id_map im_width im_height ext gt
                                     img_names Map.empty))))))"

section \<open>Notions used to state the properties\<close>

text \<open>
  The role string that the \<open>[Sequence]\<close> section declares for tracklet \<open>i\<close>, if any:
  what \<open>config["Sequence"][f"trackletID_{i}"]\<close> finds.
\<close>

definition role_of :: "cfg_section \<Rightarrow> int \<Rightarrow> string option" where
  "role_of sec i = sec (py_lower (tracklet_key i))"

text \<open>
  The spec's denormalization of a polygon: every x-coordinate multiplied by the image
  width and every y-coordinate by the image height, in exact arithmetic on the values of
  the floats.
\<close>

fun denormalize :: "pyfloat list \<Rightarrow> int \<Rightarrow> int \<Rightarrow> rat list" where
  "denormalize (x # y # rest) img_width img_height =
     float_value x * of_int img_width # float_value y * of_int img_height
       # denormalize rest img_width img_height"
| "denormalize [x] img_width img_height = []"
| "denormalize [] img_width img_height = []"

text \<open>
  The rounding error allowed to the float nearest to \<open>a / b\<close>: a relative error of
  \<open>2 ^ -53\<close>, or \<open>2 ^ -1075\<close> where the floats are subnormal.
\<close>

definition rounding_bound :: "int \<Rightarrow> int \<Rightarrow> rat" where
  "rounding_bound a b = max (\<bar>of_int a / of_int b\<bar> / 2 ^ 53) (1 / 2 ^ 1075)"

section \<open>Properties of the configuration parser\<close>

subsection \<open>Auxiliary facts\<close>

lemma starts_with_prefix: "starts_with xs ys = prefix xs ys"
  by (induction xs ys rule: starts_with.induct) auto

lemma py_in_sublist: "py_in sub s = sublist sub s"
  by (induction s) (auto simp: starts_with_prefix sublist_Cons_right)

lemma dict_set_fresh: "k \<notin> fst ` set d \<Longrightarrow> dict_set d k v = d @ [(k, v)]"
  by (induction d) auto

lemma get_option_role: "get_option sec (tracklet_key i) =
   (case role_of sec i of None \<Rightarrow> Inl KeyError | Some v \<Rightarrow> Inr v)"
  by (simp add: get_option_def role_of_def)

lemma gameinfo_loop_fail:
  "\<exists>i \<in> set ids. role_of sec i = None \<Longrightarrow> gameinfo_loop sec ids (t, m) = Inl KeyError"
  by (induction ids arbitrary: t m) (auto simp: get_option_role split: option.splits)

lemma gameinfo_loop_ok:
  "distinct ids \<Longrightarrow> set ids \<inter> fst ` set t = {} \<Longrightarrow> set ids \<inter> fst ` set m = {} \<Longrightarrow>
   \<forall>i \<in> set ids. role_of sec i \<noteq> None \<Longrightarrow>
   gameinfo_loop sec ids (t, m) =
     Inr (t @ map (\<lambda>i. (i, the (role_of sec i))) ids,
          m @ map (\<lambda>i. (i, role_category (the (role_of sec i)))) ids)"
proof (induction ids arbitrary: t m)
  case Nil
  then show ?case by simp
next
  case (Cons i ids)
  from Cons.prems obtain v where v: "role_of sec i = Some v" by auto
  have ft: "i \<notin> fst ` set t" and fm: "i \<notin> fst ` set m" using Cons.prems by auto
  have "gameinfo_loop sec (i # ids) (t, m) =
        gameinfo_loop sec ids (t @ [(i, v)], m @ [(i, role_category v)])"
    by (simp add: get_option_role v dict_set_fresh ft fm)
  also have "\<dots> = Inr ((t @ [(i, v)]) @ map (\<lambda>i. (i, the (role_of sec i))) ids,
          (m @ [(i, role_category v)]) @ map (\<lambda>i. (i, role_category (the (role_of sec i)))) ids)"
    using Cons.prems by (intro Cons.IH) auto
  finally show ?case by (simp add: v)
qed

lemma py_int_error: "py_int s = Inl e \<Longrightarrow> e = ValueError"
  by (auto simp: py_int_def split: list.splits option.splits if_splits)

lemma lower_num_tracklets: "py_lower ''num_tracklets'' = ''num_tracklets''"
  by (simp add: py_lower_def lower_char_def)

lemma parse_gameinfo_closed:
  "parse_gameinfo cfg =
     (case cfg ''Sequence'' of
        None \<Rightarrow> Inl KeyError
      | Some sec \<Rightarrow>
          (case sec ''num_tracklets'' of
             None \<Rightarrow> Inl KeyError
           | Some s \<Rightarrow>
               (case py_int s of
                  Inl e \<Rightarrow> Inl ValueError
                | Inr n \<Rightarrow>
                    if \<forall>i \<in> {1..n}. role_of sec i \<noteq> None
                    then Inr (map (\<lambda>i. (i, the (role_of sec i))) [1..n],
                              map (\<lambda>i. (i, role_category (the (role_of sec i)))) [1..n])
                    else Inl KeyError)))"
proof (cases "cfg ''Sequence''")
  case None
  then show ?thesis by (simp add: parse_gameinfo_def get_section_def)
next
  case (Some sec)
  note sec = this
  show ?thesis
  proof (cases "sec ''num_tracklets''")
    case None
    then show ?thesis
      by (simp add: parse_gameinfo_def get_section_def sec get_option_def lower_num_tracklets)
  next
    case (Some s)
    note s = this
    show ?thesis
    proof (cases "py_int s")
      case (Inl e)
      then have "e = ValueError" by (rule py_int_error)
      with Inl show ?thesis
        by (simp add: parse_gameinfo_def get_section_def sec get_option_def lower_num_tracklets s)
    next
      case (Inr n)
      have unfold: "parse_gameinfo cfg = gameinfo_loop sec [1..n] ([], [])"
        by (simp add: parse_gameinfo_def get_section_def sec get_option_def lower_num_tracklets s Inr)
      show ?thesis
      proof (cases "\<forall>i \<in> {1..n}. role_of sec i \<noteq> None")
        case True
        then have "gameinfo_loop sec [1..n] ([], []) =
          Inr ([] @ map (\<lambda>i. (i, the (role_of sec i))) [1..n],
               [] @ map (\<lambda>i. (i, role_category (the (role_of sec i)))) [1..n])"
          by (intro gameinfo_loop_ok) auto
        with True show ?thesis by (simp add: unfold sec s Inr)
      next
        case False
        then have "\<exists>i \<in> set [1..n]. role_of sec i = None" by auto
        then have "gameinfo_loop sec [1..n] ([], []) = Inl KeyError" by (rule gameinfo_loop_fail)
        with False show ?thesis by (simp add: unfold sec s Inr)
      qed
    qed
  qed
qed

lemma find_ball_id_Some:
  "find_ball_id t = Some k \<Longrightarrow> (k, ''ball;1'') \<in> set t"
proof -
  assume a: "find_ball_id t = Some k"
  then obtain v rest where f: "filter (\<lambda>(key, v). v = ''ball;1'') t = (k, v) # rest"
    by (auto simp: find_ball_id_def split: list.splits)
  then have "(k, v) \<in> set (filter (\<lambda>(key, v). v = ''ball;1'') t)" by simp
  then show ?thesis by auto
qed

lemma find_ball_id_least:
  "sorted (map fst t) \<Longrightarrow> (j, ''ball;1'') \<in> set t \<Longrightarrow> \<exists>k. find_ball_id t = Some k \<and> k \<le> j"
proof (induction t)
  case Nil
  then show ?case by simp
next
  case (Cons a t)
  obtain i v where a: "a = (i, v)" by (cases a)
  show ?case
  proof (cases "v = ''ball;1''")
    case True
    have "i \<le> j" using Cons.prems a by auto
    with True a show ?thesis by (simp add: find_ball_id_def)
  next
    case False
    with Cons.prems a have "(j, ''ball;1'') \<in> set t" by auto
    moreover have "sorted (map fst t)" using Cons.prems by simp
    ultimately obtain k where "find_ball_id t = Some k" "k \<le> j" using Cons.IH by blast
    with False a show ?thesis by (simp add: find_ball_id_def)
  qed
qed


lemma role_category_ball: "role_category ''ball;1'' = 0"
  by (simp add: role_category_def)

lemma role_category_range: "role_category v \<in> {0, 1, 2, 3}"
  by (simp add: role_category_def)

lemma map_of_tabulate: "map_of (map (\<lambda>i. (i, f i)) xs) j = (if j \<in> set xs then Some (f j) else None)"
  by (induction xs) auto

subsection \<open>The role classifier\<close>

text \<open>
  C3: for every role string the role classifier returns the category code of the first
  rule that matches, in the order \<open>goalkeeper\<close> (1), \<open>player\<close> (2), \<open>referee\<close> (3),
  otherwise 0, where a rule matches when its word occurs in the role string as a
  contiguous run of characters, upper and lower case distinguished. The classifier is
  a total function, so it never fails. On the registry
  \<open>{1: "goalkeeper;1", 2: "player;1", 3: "player;2", 4: "ball;1"}\<close> the category map
  built by \<open>parse_gameinfo\<close> is \<open>{1: 1, 2: 2, 3: 2, 4: 0}\<close>.
\<close>

theorem role_classifier_first_match:
  "role_category v =
     (if sublist ''goalkeeper'' v then 1
      else if sublist ''player'' v then 2
      else if sublist ''referee'' v then 3
      else 0)
   \<and> role_category ''Goalkeeper;1'' = 0
   \<and> role_category ''player and goalkeeper'' = 1
   \<and> parse_gameinfo
        [''Sequence'' \<mapsto>
           [''num_tracklets'' \<mapsto> ''4'', ''trackletid_1'' \<mapsto> ''goalkeeper;1'',
            ''trackletid_2'' \<mapsto> ''player;1'', ''trackletid_3'' \<mapsto> ''player;2'',
            ''trackletid_4'' \<mapsto> ''ball;1'']]
       = Inr ([(1, ''goalkeeper;1''), (2, ''player;1''), (3, ''player;2''), (4, ''ball;1'')],
              [(1, 1), (2, 2), (3, 2), (4, 0)])"
proof -
  have a: "role_category v =
     (if sublist ''goalkeeper'' v then 1
      else if sublist ''player'' v then 2
      else if sublist ''referee'' v then 3
      else 0)"
    unfolding role_category_def py_in_sublist ..
  have b: "role_category ''Goalkeeper;1'' = 0"
    by (simp add: role_category_def)
  have c: "role_category ''player and goalkeeper'' = 1"
    by (simp add: role_category_def)
  have d: "parse_gameinfo
        [''Sequence'' \<mapsto>
           [''num_tracklets'' \<mapsto> ''4'', ''trackletid_1'' \<mapsto> ''goalkeeper;1'',
            ''trackletid_2'' \<mapsto> ''player;1'', ''trackletid_3'' \<mapsto> ''player;2'',
            ''trackletid_4'' \<mapsto> ''ball;1'']]
       = Inr ([(1, ''goalkeeper;1''), (2, ''player;1''), (3, ''player;2''), (4, ''ball;1'')],
              [(1, 1), (2, 2), (3, 2), (4, 0)])"
    by (simp add: parse_gameinfo_def get_section_def get_option_def py_lower_def lower_char_def
        py_int_def py_strip_def is_space_def parse_unsigned_def is_digit_def digit_val_def
        upto.simps tracklet_key_def str_int_def str_nat.simps digit_char_def role_category_def)
  from a b c d show ?thesis by blast
qed

subsection \<open>Failures of \<open>parse_gameinfo\<close>\<close>




section \<open>Properties of the label writer\<close>

subsection \<open>Auxiliary facts\<close>





lemma write_rows_prefix: "\<exists>w. snd (write_rows b id_map iw ih rows out) = out @ w"
proof (induction rows arbitrary: out)
  case Nil
  then show ?case by simp
next
  case (Cons a rows)
  show ?case
  proof (cases "Some (row_track_id a) \<noteq> b")
    case False
    then show ?thesis using Cons.IH by simp
  next
    case True
    show ?thesis
    proof (cases "dict_get id_map (row_track_id a)")
      case (Inl e)
      with True show ?thesis by simp
    next
      case (Inr idt)
      note idt = this
      show ?thesis
      proof (cases "rectangle_to_polygon_normalized (row_x0 a) (row_y0 a) (row_width a) (row_height a) iw ih")
        case (Inl e)
        with True idt show ?thesis by simp
      next
        case (Inr c)
        from Cons.IH [of "out @ label_line idt c"]
        obtain w where "snd (write_rows b id_map iw ih rows (out @ label_line idt c)) = (out @ label_line idt c) @ w"
          by blast
        with True idt Inr show ?thesis by simp
      qed
    qed
  qed
qed

lemma py_int_000001: "py_int ''000001'' = Inr 1"
  by (simp add: py_int_def py_strip_def is_space_def parse_unsigned_def is_digit_def digit_val_def)

lemma py_int_000002: "py_int ''000002'' = Inr 2"
  by (simp add: py_int_def py_strip_def is_space_def parse_unsigned_def is_digit_def digit_val_def)

lemma py_int_1920: "py_int ''1920'' = Inr 1920"
  by (simp add: py_int_def py_strip_def is_space_def parse_unsigned_def is_digit_def digit_val_def)

lemma py_int_1080: "py_int ''1080'' = Inr 1080"
  by (simp add: py_int_def py_strip_def is_space_def parse_unsigned_def is_digit_def digit_val_def)

lemma split_first_000001: "split_first ''000001.jpg'' ''.jpg'' = Inr ''000001''"
  by (simp add: split_first_def)

lemma split_first_000002: "split_first ''000002.jpg'' ''.jpg'' = Inr ''000002''"
  by (simp add: split_first_def)

lemma map_of_tabulate_Some:
  "map_of (map (\<lambda>i. (i, f i)) xs) j = Some v \<longleftrightarrow> j \<in> set xs \<and> f j = v"
  by (auto simp: map_of_tabulate)

subsection \<open>A frame without annotation rows\<close>

text \<open>
  C1 says that a frame with no row in the ground-truth table still gets its label file,
  empty, and that nothing is raised. The code does otherwise. Below, the only row of the
  table belongs to frame 1 and is the ball, and the images are those of frames 1 and 2.
  Frame 1, whose rows are all skipped, gets an empty label file; for frame 2
  \<open>get_group\<close> raises \<open>KeyError\<close> before the label file is opened, so the file
  \<open>000002.txt\<close> does not exist and \<open>process_data\<close> ends with the exception.
\<close>

theorem frame_without_rows_raises:
  "process_data
     [''Sequence'' \<mapsto> [''num_tracklets'' \<mapsto> ''1'', ''trackletid_1'' \<mapsto> ''ball;1'']]
     [''Sequence'' \<mapsto> [''imwidth'' \<mapsto> ''1920'', ''imheight'' \<mapsto> ''1080'',
                       ''imext'' \<mapsto> ''.jpg'', ''imdir'' \<mapsto> ''img1'']]
     [\<lparr>row_frame_id = 1, row_track_id = 1, row_x0 = 10, row_y0 = 20, row_width = 30,
       row_height = 40, row_gt = 1\<rparr>]
     [''000001.jpg'', ''000002.jpg'']
     Map.empty
   = (Some KeyError, [''000001.txt'' \<mapsto> []])"
proof -
  let ?gt = "[\<lparr>row_frame_id = 1, row_track_id = 1, row_x0 = 10, row_y0 = 20, row_width = 30,
       row_height = 40, row_gt = 1\<rparr>]"
  have g: "parse_gameinfo
     [''Sequence'' \<mapsto> [''num_tracklets'' \<mapsto> ''1'', ''trackletid_1'' \<mapsto> ''ball;1'']]
     = Inr ([(1, ''ball;1'')], [(1, 0)])"
    by (simp add: parse_gameinfo_def get_section_def get_option_def py_lower_def lower_char_def
        py_int_def py_strip_def is_space_def parse_unsigned_def is_digit_def digit_val_def
        upto.simps tracklet_key_def str_int_def str_nat.simps digit_char_def role_category_def)
  have b: "find_ball_id [(1, ''ball;1'')] = Some 1"
    by (simp add: find_ball_id_def)
  have f1: "process_image (Some 1) [(1, 0)] 1920 1080 ''.jpg'' ?gt ''000001.jpg'' Map.empty
      = (None, [''000001.txt'' \<mapsto> []])"
    by (simp add: process_image_def split_first_000001 py_int_000001 read_csv_def get_group_def)
  have f2: "process_image (Some 1) [(1, 0)] 1920 1080 ''.jpg'' ?gt ''000002.jpg''
        [''000001.txt'' \<mapsto> []]
      = (Some KeyError, [''000001.txt'' \<mapsto> []])"
    by (simp add: process_image_def split_first_000002 py_int_000002 read_csv_def get_group_def)
  have l: "process_images (Some 1) [(1, 0)] 1920 1080 ''.jpg'' ?gt [''000001.jpg'', ''000002.jpg'']
        Map.empty = (Some KeyError, [''000001.txt'' \<mapsto> []])"
    by (simp add: f1 f2)
  show ?thesis
    by (simp add: process_data_def g b get_section_def get_option_def bind_err_def
        py_lower_def lower_char_def py_int_1920 py_int_1080 Let_def l
        del: process_images.simps)
qed

subsection \<open>The ball\<close>



subsection \<open>Rows of unknown tracks\<close>



subsection \<open>The two mappings of \<open>parse_gameinfo\<close>\<close>

text \<open>
  C10: when \<open>parse_gameinfo\<close> succeeds, the keys of the tracklet registry and of the
  category map are the integers from 1 to \<open>num_tracklets\<close>, in that order, and every
  category code is 0, 1, 2 or 3. The ball ID is a tracklet with role string
  \<open>"ball;1"\<close>, and the smallest one: every tracklet with this role string has
  category code 0 and an ID that is not below the ball ID, and a row of such a tracklet
  other than the ball is not skipped, it is written with category code 0 (or raises what
  the geometry raises).
\<close>

theorem parse_gameinfo_key_sets:
  assumes "parse_gameinfo cfg = Inr (tracklets, id_map)"
  shows "\<exists>sec s n. cfg ''Sequence'' = Some sec \<and> sec ''num_tracklets'' = Some s \<and> py_int s = Inr n
      \<and> map fst tracklets = [1..n] \<and> map fst id_map = [1..n]
      \<and> fst ` set tracklets = {1..n} \<and> fst ` set id_map = {1..n}
      \<and> snd ` set id_map \<subseteq> {0, 1, 2, 3}
      \<and> (\<forall>k. find_ball_id tracklets = Some k \<longrightarrow> map_of tracklets k = Some ''ball;1'')
      \<and> (\<forall>j. map_of tracklets j = Some ''ball;1'' \<longrightarrow>
            (\<exists>k. find_ball_id tracklets = Some k \<and> k \<le> j)
            \<and> map_of id_map j = Some 0
            \<and> (find_ball_id tracklets \<noteq> Some j \<longrightarrow>
                 (\<forall>r im_width im_height out. row_track_id r = j \<longrightarrow>
                    write_rows (find_ball_id tracklets) id_map im_width im_height [r] out =
                      (case rectangle_to_polygon_normalized (row_x0 r) (row_y0 r)
                              (row_width r) (row_height r) im_width im_height of
                         Inl e \<Rightarrow> (Some e, out)
                       | Inr polygon_coords \<Rightarrow> (None, out @ label_line 0 polygon_coords)))))"
proof -
  from assms obtain sec where sec: "cfg ''Sequence'' = Some sec"
    by (auto simp: parse_gameinfo_closed split: option.splits)
  from assms sec obtain s where s: "sec ''num_tracklets'' = Some s"
    by (auto simp: parse_gameinfo_closed split: option.splits)
  from assms sec s obtain n where n: "py_int s = Inr n"
    by (auto simp: parse_gameinfo_closed split: sum.splits)
  from assms sec s n have all: "\<forall>i \<in> {1..n}. role_of sec i \<noteq> None"
    by (auto simp: parse_gameinfo_closed split: if_splits)
  from assms sec s n all
  have t: "tracklets = map (\<lambda>i. (i, the (role_of sec i))) [1..n]"
    and m: "id_map = map (\<lambda>i. (i, role_category (the (role_of sec i)))) [1..n]"
    by (simp_all add: parse_gameinfo_closed)
  have kt: "map fst tracklets = [1..n]" by (simp add: t comp_def)
  have km: "map fst id_map = [1..n]" by (simp add: m comp_def)
  have st: "fst ` set tracklets = {1..n}" using kt by (metis set_map set_upto)
  have sm: "fst ` set id_map = {1..n}" using km by (metis set_map set_upto)
  have rng: "snd ` set id_map \<subseteq> {0, 1, 2, 3}"
  proof
    fix c
    assume "c \<in> snd ` set id_map"
    then obtain i where "c = role_category (the (role_of sec i))" by (auto simp: m)
    then show "c \<in> {0, 1, 2, 3}" using role_category_range by simp
  qed
  have dist: "distinct (map fst tracklets)" by (simp add: kt)
  have srt: "sorted (map fst tracklets)" by (simp add: kt)
  have ball: "\<forall>k. find_ball_id tracklets = Some k \<longrightarrow> map_of tracklets k = Some ''ball;1''"
    using find_ball_id_Some dist by (auto intro: map_of_is_SomeI)
  have others: "\<forall>j. map_of tracklets j = Some ''ball;1'' \<longrightarrow>
            (\<exists>k. find_ball_id tracklets = Some k \<and> k \<le> j)
            \<and> map_of id_map j = Some 0
            \<and> (find_ball_id tracklets \<noteq> Some j \<longrightarrow>
                 (\<forall>r im_width im_height out. row_track_id r = j \<longrightarrow>
                    write_rows (find_ball_id tracklets) id_map im_width im_height [r] out =
                      (case rectangle_to_polygon_normalized (row_x0 r) (row_y0 r)
                              (row_width r) (row_height r) im_width im_height of
                         Inl e \<Rightarrow> (Some e, out)
                       | Inr polygon_coords \<Rightarrow> (None, out @ label_line 0 polygon_coords))))"
  proof (intro allI impI)
    fix j
    assume j: "map_of tracklets j = Some ''ball;1''"
    then have mem: "(j, ''ball;1'') \<in> set tracklets" by (rule map_of_SomeD)
    have least: "\<exists>k. find_ball_id tracklets = Some k \<and> k \<le> j"
      using srt mem by (rule find_ball_id_least)
    from j have "j \<in> set [1..n]" and "the (role_of sec j) = ''ball;1''"
      by (simp_all add: t map_of_tabulate_Some)
    then have code: "map_of id_map j = Some 0"
      by (simp add: m map_of_tabulate role_category_ball)
    have elig: "find_ball_id tracklets \<noteq> Some j \<longrightarrow>
                 (\<forall>r im_width im_height out. row_track_id r = j \<longrightarrow>
                    write_rows (find_ball_id tracklets) id_map im_width im_height [r] out =
                      (case rectangle_to_polygon_normalized (row_x0 r) (row_y0 r)
                              (row_width r) (row_height r) im_width im_height of
                         Inl e \<Rightarrow> (Some e, out)
                       | Inr polygon_coords \<Rightarrow> (None, out @ label_line 0 polygon_coords)))"
      using code by (auto simp: dict_get_def split: sum.splits)
    from least code elig
    show "(\<exists>k. find_ball_id tracklets = Some k \<and> k \<le> j)
            \<and> map_of id_map j = Some 0
            \<and> (find_ball_id tracklets \<noteq> Some j \<longrightarrow>
                 (\<forall>r im_width im_height out. row_track_id r = j \<longrightarrow>
                    write_rows (find_ball_id tracklets) id_map im_width im_height [r] out =
                      (case rectangle_to_polygon_normalized (row_x0 r) (row_y0 r)
                              (row_width r) (row_height r) im_width im_height of
                         Inl e \<Rightarrow> (Some e, out)
                       | Inr polygon_coords \<Rightarrow> (None, out @ label_line 0 polygon_coords))))"
      by blast
  qed
  from sec s n kt km st sm rng ball others show ?thesis by blast
qed

theorem parse_gameinfo_key_sets_witness:
  "parse_gameinfo
     [''Sequence'' \<mapsto> [''num_tracklets'' \<mapsto> ''3'', ''trackletid_1'' \<mapsto> ''player;1'',
                       ''trackletid_2'' \<mapsto> ''ball;1'', ''trackletid_3'' \<mapsto> ''ball;1'']]
     = Inr ([(1, ''player;1''), (2, ''ball;1''), (3, ''ball;1'')], [(1, 2), (2, 0), (3, 0)])
   \<and> find_ball_id [(1, ''player;1''), (2, ''ball;1''), (3, ''ball;1'')] = Some 2
   \<and> fst ` set [(1 :: int, ''player;1''), (2, ''ball;1''), (3, ''ball;1'')] = {1..3}
   \<and> map_of [(1 :: int, 2 :: int), (2, 0), (3, 0)] 3 = Some 0"
proof -
  let ?cfg = "[''Sequence'' \<mapsto> [''num_tracklets'' \<mapsto> ''3'', ''trackletid_1'' \<mapsto> ''player;1'',
                       ''trackletid_2'' \<mapsto> ''ball;1'', ''trackletid_3'' \<mapsto> ''ball;1'']]"
  let ?t = "[(1 :: int, ''player;1''), (2, ''ball;1''), (3, ''ball;1'')]"
  let ?m = "[(1 :: int, 2 :: int), (2, 0), (3, 0)]"
  have h: "parse_gameinfo ?cfg = Inr (?t, ?m)"
    by (simp add: parse_gameinfo_def get_section_def get_option_def py_lower_def lower_char_def
        py_int_def py_strip_def is_space_def parse_unsigned_def is_digit_def digit_val_def
        upto.simps tracklet_key_def str_int_def str_nat.simps digit_char_def role_category_def)
  have i: "py_int ''3'' = Inr 3"
    by (simp add: py_int_def py_strip_def is_space_def parse_unsigned_def is_digit_def
        digit_val_def)
  have b: "find_ball_id ?t = Some 2"
    by (simp add: find_ball_id_def)
  have b3: "map_of ?t 3 = Some ''ball;1''" by simp
  from parse_gameinfo_key_sets [OF h] show ?thesis
  proof (elim exE conjE)
    fix sec s n
    assume sec: "?cfg ''Sequence'' = Some sec" and s: "sec ''num_tracklets'' = Some s"
      and n: "py_int s = Inr n" and keys: "fst ` set ?t = {1..n}"
      and others: "\<forall>j. map_of ?t j = Some ''ball;1'' \<longrightarrow>
            (\<exists>k. find_ball_id ?t = Some k \<and> k \<le> j)
            \<and> map_of ?m j = Some 0
            \<and> (find_ball_id ?t \<noteq> Some j \<longrightarrow>
                 (\<forall>r im_width im_height out. row_track_id r = j \<longrightarrow>
                    write_rows (find_ball_id ?t) ?m im_width im_height [r] out =
                      (case rectangle_to_polygon_normalized (row_x0 r) (row_y0 r)
                              (row_width r) (row_height r) im_width im_height of
                         Inl e \<Rightarrow> (Some e, out)
                       | Inr polygon_coords \<Rightarrow> (None, out @ label_line 0 polygon_coords))))"
    from sec s have "s = ''3''" by auto
    with n i have "n = 3" by simp
    with keys have a: "fst ` set ?t = {1..3}" by simp
    from others have "map_of ?t 3 = Some ''ball;1'' \<longrightarrow> map_of ?m 3 = Some 0"
      by (elim allE [where x = 3]) (intro impI, elim impE, assumption, elim conjE, assumption)
    with b3 have c: "map_of ?m 3 = Some 0" by (rule mp [rotated])
    from h b a c show ?thesis by (intro conjI)
  qed
qed

section \<open>Properties of true division\<close>

subsection \<open>Bit lengths, logarithms and rounding\<close>

lemma bit_length_bounds:
  "0 < n \<Longrightarrow> 2 ^ (bit_length n - 1) \<le> n \<and> n < 2 ^ bit_length n"
proof (induction n rule: bit_length.induct)
  case (1 n)
  show ?case
  proof (cases "n div 2 = 0")
    case True
    with "1.prems" have "n = 1" by auto
    then show ?thesis by (simp add: bit_length.simps)
  next
    case False
    then have pos: "0 < n div 2" by simp
    have n0: "n \<noteq> 0" using "1.prems" by simp
    from "1.IH" [OF n0 pos]
    have lo: "2 ^ (bit_length (n div 2) - 1) \<le> n div 2" and hi: "n div 2 < 2 ^ bit_length (n div 2)"
      by simp_all
    have bl: "bit_length n = Suc (bit_length (n div 2))"
      using n0 by (subst bit_length.simps) simp
    have blpos: "0 < bit_length (n div 2)"
      using pos by (subst bit_length.simps) simp
    then have e: "2 ^ bit_length (n div 2) = 2 * (2::nat) ^ (bit_length (n div 2) - 1)"
      by (cases "bit_length (n div 2)") simp_all
    have "2 ^ bit_length (n div 2) \<le> 2 * (n div 2)" using lo e by simp
    also have "\<dots> \<le> n" by simp
    finally have a: "2 ^ (bit_length n - 1) \<le> n" by (simp add: bl)
    have "n < 2 * (n div 2) + 2" by presburger
    also have "\<dots> \<le> 2 * 2 ^ bit_length (n div 2)" using hi by simp
    finally have b: "n < 2 ^ bit_length n" by (simp add: bl)
    from a b show ?thesis ..
  qed
qed

lemma bit_length_pos: "0 < n \<Longrightarrow> 0 < bit_length n"
  by (subst bit_length.simps) simp

lemma powi_split: "(2::rat) powi d = 2 ^ nat d / 2 ^ nat (- d)"
  by (cases "0 \<le> d") (simp_all add: power_int_def field_simps)

lemma pow_div_powi: "(2::rat) ^ m / 2 ^ n = 2 powi (int m - int n)"
  by (simp add: power_int_diff)

lemma floor_log2_quot_bounds:
  assumes a: "0 < a" and b: "0 < b"
  shows "2 powi (floor_log2_quot a b) \<le> (of_nat a :: rat) / of_nat b"
    and "(of_nat a :: rat) / of_nat b < 2 powi (floor_log2_quot a b + 1)"
proof -
  define la where "la = bit_length a"
  define lb where "lb = bit_length b"
  define d where "d = int la - int lb"
  have la: "2 ^ (la - 1) \<le> a" "a < 2 ^ la" "0 < la"
    using bit_length_bounds [OF a] bit_length_pos [OF a] by (simp_all add: la_def)
  have lb: "2 ^ (lb - 1) \<le> b" "b < 2 ^ lb" "0 < lb"
    using bit_length_bounds [OF b] bit_length_pos [OF b] by (simp_all add: lb_def)
  have ra: "(2::rat) ^ (la - 1) \<le> of_nat a" "(of_nat a :: rat) < 2 ^ la"
    using la by (metis of_nat_le_iff of_nat_numeral of_nat_power, metis of_nat_less_iff of_nat_numeral of_nat_power)
  have rb: "(2::rat) ^ (lb - 1) \<le> of_nat b" "(of_nat b :: rat) < 2 ^ lb"
    using lb by (metis of_nat_le_iff of_nat_numeral of_nat_power, metis of_nat_less_iff of_nat_numeral of_nat_power)
  have bpos: "(0::rat) < of_nat b" using b by simp
  have apos: "(0::rat) < of_nat a" using a by simp
  have ila: "int (la - 1) = int la - 1" using la(3) by simp
  have ilb: "int (lb - 1) = int lb - 1" using lb(3) by simp
  have upper: "(of_nat a :: rat) / of_nat b < 2 powi (d + 1)"
  proof -
    have "(of_nat a :: rat) / of_nat b < 2 ^ la / of_nat b"
      using ra(2) bpos by (simp add: divide_strict_right_mono)
    also have "\<dots> \<le> 2 ^ la / 2 ^ (lb - 1)"
      using rb(1) by (simp add: frac_le)
    also have "\<dots> = 2 powi (d + 1)"
      unfolding pow_div_powi ilb d_def by (simp add: algebra_simps)
    finally show ?thesis .
  qed
  have lower: "2 powi (d - 1) < (of_nat a :: rat) / of_nat b"
  proof -
    have "(2::rat) powi (d - 1) = 2 ^ (la - 1) / 2 ^ lb"
      unfolding pow_div_powi ila d_def by (simp add: algebra_simps)
    also have "\<dots> \<le> of_nat a / 2 ^ lb"
      using ra(1) by (simp add: divide_right_mono)
    also have "\<dots> < of_nat a / of_nat b"
      using rb(2) apos bpos by (simp add: divide_strict_left_mono)
    finally show ?thesis .
  qed
  have test: "(b * 2 ^ nat d \<le> a * 2 ^ nat (- d)) \<longleftrightarrow> (2::rat) powi d \<le> of_nat a / of_nat b"
  proof -
    have "(b * 2 ^ nat d \<le> a * 2 ^ nat (- d)) \<longleftrightarrow>
          (of_nat (b * 2 ^ nat d) :: rat) \<le> of_nat (a * 2 ^ nat (- d))"
      by (simp only: of_nat_le_iff)
    also have "\<dots> \<longleftrightarrow> (of_nat b :: rat) * 2 ^ nat d \<le> of_nat a * 2 ^ nat (- d)"
      by simp
    also have "\<dots> \<longleftrightarrow> (2::rat) ^ nat d / 2 ^ nat (- d) \<le> of_nat a / of_nat b"
      using bpos by (simp add: field_simps)
    finally show ?thesis by (simp add: powi_split)
  qed
  have fl: "floor_log2_quot a b = (if (2::rat) powi d \<le> of_nat a / of_nat b then d else d - 1)"
    unfolding floor_log2_quot_def Let_def la_def [symmetric] lb_def [symmetric] d_def [symmetric]
    using test by simp
  show "2 powi (floor_log2_quot a b) \<le> (of_nat a :: rat) / of_nat b"
    using lower by (simp add: fl)
  show "(of_nat a :: rat) / of_nat b < 2 powi (floor_log2_quot a b + 1)"
    using upper by (auto simp: fl)
qed

lemma round_half_even_error:
  assumes "0 < den"
  shows "\<bar>(of_nat (round_half_even num den) :: rat) - of_nat num / of_nat den\<bar> \<le> 1 / 2"
proof -
  define q where "q = num div den"
  define r where "r = num mod den"
  have num: "num = q * den + r" by (simp add: q_def r_def)
  have r: "r < den" using assms by (simp add: r_def)
  have dpos: "(0::rat) < of_nat den" using assms by simp
  have quot: "(of_nat num :: rat) / of_nat den = of_nat q + of_nat r / of_nat den"
    using dpos by (simp add: num field_simps)
  show ?thesis
  proof (cases "den < 2 * r \<or> (2 * r = den \<and> odd q)")
    case True
    then have rhe: "round_half_even num den = q + 1"
      by (simp add: round_half_even_def Let_def q_def r_def)
    from True have "den \<le> 2 * r" by auto
    then have "(of_nat den :: rat) \<le> 2 * of_nat r"
      by (metis of_nat_le_iff of_nat_mult of_nat_numeral)
    then have h: "(1::rat) / 2 \<le> of_nat r / of_nat den" using dpos by (simp add: field_simps)
    have "(of_nat r :: rat) < of_nat den" using r by simp
    then have l: "(of_nat r :: rat) / of_nat den < 1" using dpos by simp
    show ?thesis using h l by (simp add: rhe quot)
  next
    case False
    then have rhe: "round_half_even num den = q"
      by (simp add: round_half_even_def Let_def q_def r_def)
    from False have "2 * r \<le> den" by auto
    then have "2 * (of_nat r :: rat) \<le> of_nat den"
      by (metis of_nat_le_iff of_nat_mult of_nat_numeral)
    then have h: "(of_nat r :: rat) / of_nat den \<le> 1 / 2" using dpos by (simp add: field_simps)
    have "(0::rat) \<le> of_nat r / of_nat den" by simp
    with h show ?thesis by (simp add: rhe quot)
  qed
qed

subsection \<open>The float returned by \<open>py_truediv\<close>\<close>

lemma py_truediv_zero_divisor: "py_truediv a 0 = Inl ZeroDivisionError"
  by (simp add: py_truediv_def)

lemma py_truediv_zero_dividend: "b \<noteq> 0 \<Longrightarrow> py_truediv 0 b = Inr (PyFloat (b < 0) 0 0)"
  by (simp add: py_truediv_def)

lemma py_truediv_unfold:
  assumes "b \<noteq> 0" "a \<noteq> 0"
    and "e = max (floor_log2_quot (nat \<bar>a\<bar>) (nat \<bar>b\<bar>) - 52) (- 1074)"
    and "m = round_half_even (nat \<bar>a\<bar> * 2 ^ nat (- e)) (nat \<bar>b\<bar> * 2 ^ nat e)"
  shows "py_truediv a b =
     (if m = 0 then Inr (PyFloat ((a < 0) \<noteq> (b < 0)) 0 0)
      else if m = 2 ^ 53 then
        (if 971 < e + 1 then Inl OverflowError
         else Inr (PyFloat ((a < 0) \<noteq> (b < 0)) (2 ^ 52) (e + 1)))
      else (if 971 < e then Inl OverflowError else Inr (PyFloat ((a < 0) \<noteq> (b < 0)) m e)))"
  unfolding assms(4) assms(3) py_truediv_def Let_def using assms(1,2) by (simp only: if_False)

lemma py_truediv_errors:
  assumes "py_truediv a b = Inl err"
  shows "err = ZeroDivisionError \<and> b = 0 \<or> err = OverflowError \<and> b \<noteq> 0"
proof (cases "b = 0")
  case True
  with assms show ?thesis by (simp add: py_truediv_zero_divisor)
next
  case False
  note b = this
  show ?thesis
  proof (cases "a = 0")
    case True
    with assms b show ?thesis by (simp add: py_truediv_zero_dividend)
  next
    case False
    define e where "e = max (floor_log2_quot (nat \<bar>a\<bar>) (nat \<bar>b\<bar>) - 52) (- 1074)"
    define m where "m = round_half_even (nat \<bar>a\<bar> * 2 ^ nat (- e)) (nat \<bar>b\<bar> * 2 ^ nat e)"
    note u = py_truediv_unfold [OF b False e_def m_def]
    from assms u have "err = OverflowError" by (simp split: if_splits)
    with b show ?thesis by simp
  qed
qed

lemma scaled_quotient:
  assumes "0 < d"
  shows "(of_nat (n * 2 ^ nat (- e)) :: rat) / of_nat (d * 2 ^ nat e) =
         of_nat n / of_nat d * 2 powi (- e)"
proof -
  have "(2::rat) powi (- e) = 2 ^ nat (- e) / 2 ^ nat e"
    using powi_split [of "- e"] by simp
  then show ?thesis by simp
qed

lemma quotient_sign:
  assumes "b \<noteq> 0"
  shows "(of_int a :: rat) / of_int b =
         (if (a < 0) \<noteq> (b < 0) then - 1 else 1) * (of_nat (nat \<bar>a\<bar>) / of_nat (nat \<bar>b\<bar>))"
proof -
  have "(of_nat (nat \<bar>a\<bar>) :: rat) = \<bar>of_int a\<bar>" by simp
  moreover have "(of_nat (nat \<bar>b\<bar>) :: rat) = \<bar>of_int b\<bar>" by simp
  ultimately show ?thesis
    using assms by (auto simp: abs_if)
qed

lemma py_truediv_value:
  assumes "py_truediv a b = Inr f" and "a \<noteq> 0"
    and "e = max (floor_log2_quot (nat \<bar>a\<bar>) (nat \<bar>b\<bar>) - 52) (- 1074)"
    and "m = round_half_even (nat \<bar>a\<bar> * 2 ^ nat (- e)) (nat \<bar>b\<bar> * 2 ^ nat e)"
  shows "float_value f = (if (a < 0) \<noteq> (b < 0) then - 1 else 1) * (of_nat m * 2 powi e)"
proof -
  have b: "b \<noteq> 0" using assms(1) by (auto simp: py_truediv_def)
  note u = py_truediv_unfold [OF b assms(2) assms(3) assms(4)]
  have p: "(2::rat) ^ 52 * 2 powi (e + 1) = 2 ^ 53 * 2 powi e"
    by (simp add: power_int_add)
  show ?thesis
  proof (cases "m = 0")
    case True
    with u assms(1) have "f = PyFloat ((a < 0) \<noteq> (b < 0)) 0 0" by simp
    with True show ?thesis by (simp add: float_value_def)
  next
    case False
    note m0 = this
    show ?thesis
    proof (cases "m = 2 ^ 53")
      case True
      with u assms(1) m0 have "f = PyFloat ((a < 0) \<noteq> (b < 0)) (2 ^ 52) (e + 1)"
        by (simp split: if_splits)
      then show ?thesis using p True by (simp add: float_value_def)
    next
      case False
      with u assms(1) m0 have "f = PyFloat ((a < 0) \<noteq> (b < 0)) m e"
        by (simp split: if_splits)
      then show ?thesis by (simp add: float_value_def)
    qed
  qed
qed

lemma py_truediv_error:
  assumes "py_truediv a b = Inr f"
  shows "\<bar>float_value f - of_int a / of_int b\<bar>
         \<le> max (\<bar>of_int a / of_int b\<bar> / 2 ^ 53) (1 / 2 ^ 1075)"
proof (cases "a = 0")
  case True
  have b: "b \<noteq> 0" using assms by (auto simp: py_truediv_def)
  with True assms have "f = PyFloat (b < 0) 0 0" by (simp add: py_truediv_zero_dividend)
  with True show ?thesis by (simp add: float_value_def)
next
  case False
  have b: "b \<noteq> 0" using assms by (auto simp: py_truediv_def)
  define n where "n = nat \<bar>a\<bar>"
  define d where "d = nat \<bar>b\<bar>"
  define fl where "fl = floor_log2_quot n d"
  define e where "e = max (fl - 52) (- 1074)"
  define m where "m = round_half_even (n * 2 ^ nat (- e)) (d * 2 ^ nat e)"
  define q :: rat where "q = of_nat n / of_nat d"
  define s :: rat where "s = (if (a < 0) \<noteq> (b < 0) then - 1 else 1)"
  have n: "0 < n" using False by (simp add: n_def)
  have d: "0 < d" using b by (simp add: d_def)
  have qpos: "0 < q" using n d by (simp add: q_def)
  have fv: "float_value f = s * (of_nat m * 2 powi e)"
    unfolding s_def
    by (rule py_truediv_value [OF assms False])
       (simp_all add: e_def fl_def n_def d_def m_def)
  have ab: "(of_int a :: rat) / of_int b = s * q"
    unfolding s_def q_def n_def d_def by (rule quotient_sign [OF b])
  have sabs: "\<bar>s\<bar> = 1" by (simp add: s_def)
  have dpos: "0 < d * 2 ^ nat e" using d by simp
  have "\<bar>(of_nat m :: rat) - of_nat (n * 2 ^ nat (- e)) / of_nat (d * 2 ^ nat e)\<bar> \<le> 1 / 2"
    unfolding m_def by (rule round_half_even_error [OF dpos])
  then have r: "\<bar>(of_nat m :: rat) - q * 2 powi (- e)\<bar> \<le> 1 / 2"
    by (simp only: scaled_quotient [OF d] q_def)
  have ppos: "(0::rat) < 2 powi e" by simp
  have "float_value f - of_int a / of_int b = s * ((of_nat m - q * 2 powi (- e)) * 2 powi e)"
    by (simp add: fv ab algebra_simps power_int_minus)
  then have "\<bar>float_value f - of_int a / of_int b\<bar> = \<bar>of_nat m - q * 2 powi (- e)\<bar> * 2 powi e"
    by (simp add: abs_mult sabs)
  also have "\<dots> \<le> 1 / 2 * 2 powi e"
    using r ppos by (intro mult_right_mono) simp_all
  finally have err: "\<bar>float_value f - of_int a / of_int b\<bar> \<le> 2 powi e / 2" by simp
  have qabs: "\<bar>(of_int a :: rat) / of_int b\<bar> = q"
    using qpos by (simp add: ab abs_mult sabs)
  have bound: "(2::rat) powi e / 2 \<le> max (q / 2 ^ 53) (1 / 2 ^ 1075)"
  proof (cases "- 1074 \<le> fl - 52")
    case True
    then have e: "e = fl - 52" by (simp add: e_def)
    have "(2::rat) powi fl \<le> q"
      unfolding fl_def q_def by (rule floor_log2_quot_bounds(1) [OF n d])
    moreover have "(2::rat) powi e / 2 = 2 powi fl / 2 ^ 53"
      by (simp add: e power_int_diff)
    ultimately have "(2::rat) powi e / 2 \<le> q / 2 ^ 53"
      by (simp add: divide_right_mono)
    then show ?thesis by simp
  next
    case False
    then have e: "e = - 1074" by (simp add: e_def)
    have "(2::rat) powi e / 2 = 1 / 2 ^ 1075"
      by (simp add: e power_int_minus field_simps)
    then show ?thesis by simp
  qed
  from err bound show ?thesis by (simp only: qabs)
qed

lemma abs_quotient_nat:
  "(of_nat (nat \<bar>a\<bar>) :: rat) / of_nat (nat \<bar>b\<bar>) = \<bar>of_int a\<bar> / \<bar>of_int b\<bar>"
  by simp

lemma py_truediv_returns:
  assumes b: "b \<noteq> 0" and small: "\<bar>a\<bar> < 2 ^ 1023 * \<bar>b\<bar>"
  shows "\<exists>f. py_truediv a b = Inr f"
proof (cases "a = 0")
  case True
  with b show ?thesis by (simp add: py_truediv_zero_dividend)
next
  case False
  define n where "n = nat \<bar>a\<bar>"
  define d where "d = nat \<bar>b\<bar>"
  define fl where "fl = floor_log2_quot n d"
  define e where "e = max (fl - 52) (- 1074)"
  define m where "m = round_half_even (n * 2 ^ nat (- e)) (d * 2 ^ nat e)"
  have n: "0 < n" using False by (simp add: n_def)
  have d: "0 < d" using b by (simp add: d_def)
  have u: "py_truediv a b =
     (if m = 0 then Inr (PyFloat ((a < 0) \<noteq> (b < 0)) 0 0)
      else if m = 2 ^ 53 then
        (if 971 < e + 1 then Inl OverflowError
         else Inr (PyFloat ((a < 0) \<noteq> (b < 0)) (2 ^ 52) (e + 1)))
      else (if 971 < e then Inl OverflowError else Inr (PyFloat ((a < 0) \<noteq> (b < 0)) m e)))"
    by (rule py_truediv_unfold [OF b False])
       (simp_all only: e_def fl_def n_def d_def m_def)
  have "n < 2 ^ 1023 * d"
    using small by (simp add: n_def d_def nat_less_iff nat_mult_distrib nat_power_eq)
  then have "(of_nat n :: rat) < of_nat (2 ^ 1023 * d)" by (simp only: of_nat_less_iff)
  then have "(of_nat n :: rat) < 2 ^ 1023 * of_nat d" by simp
  then have q: "(of_nat n :: rat) / of_nat d < 2 ^ 1023"
    using d by (simp add: field_simps)
  have "(2::rat) powi fl \<le> of_nat n / of_nat d"
    unfolding fl_def by (rule floor_log2_quot_bounds(1) [OF n d])
  with q have lt: "(2::rat) powi fl < 2 powi 1023" by simp
  have "fl < 1023"
  proof (rule ccontr)
    assume "\<not> fl < 1023"
    then have "1023 \<le> fl" by simp
    then have "(2::rat) powi 1023 \<le> 2 powi fl" by (rule power_int_increasing) simp
    with lt show False by simp
  qed
  then have e: "e \<le> 970" by (simp add: e_def)
  then have "\<not> 971 < e + 1" and "\<not> 971 < e" by simp_all
  with u show ?thesis by (simp split: if_splits)
qed

lemma py_truediv_overflow:
  assumes b: "b \<noteq> 0" and big: "2 ^ 1024 * \<bar>b\<bar> \<le> \<bar>a\<bar>"
  shows "py_truediv a b = Inl OverflowError"
proof -
  have a: "a \<noteq> 0" using b big by auto
  define n where "n = nat \<bar>a\<bar>"
  define d where "d = nat \<bar>b\<bar>"
  define fl where "fl = floor_log2_quot n d"
  define e where "e = max (fl - 52) (- 1074)"
  define m where "m = round_half_even (n * 2 ^ nat (- e)) (d * 2 ^ nat e)"
  define q :: rat where "q = of_nat n / of_nat d"
  have n: "0 < n" using a by (simp add: n_def)
  have d: "0 < d" using b by (simp add: d_def)
  have u: "py_truediv a b =
     (if m = 0 then Inr (PyFloat ((a < 0) \<noteq> (b < 0)) 0 0)
      else if m = 2 ^ 53 then
        (if 971 < e + 1 then Inl OverflowError
         else Inr (PyFloat ((a < 0) \<noteq> (b < 0)) (2 ^ 52) (e + 1)))
      else (if 971 < e then Inl OverflowError else Inr (PyFloat ((a < 0) \<noteq> (b < 0)) m e)))"
    by (rule py_truediv_unfold [OF b a])
       (simp_all only: e_def fl_def n_def d_def m_def)
  have "2 ^ 1024 * d \<le> n"
    using big by (simp add: n_def d_def nat_le_iff nat_mult_distrib nat_power_eq le_nat_iff)
  then have "(of_nat (2 ^ 1024 * d) :: rat) \<le> of_nat n" by (simp only: of_nat_le_iff)
  then have "(2::rat) ^ 1024 * of_nat d \<le> of_nat n" by simp
  then have q: "(2::rat) ^ 1024 \<le> q"
    using d by (simp add: q_def field_simps)
  have lo: "(2::rat) powi fl \<le> q"
    unfolding fl_def q_def by (rule floor_log2_quot_bounds(1) [OF n d])
  have "q < 2 powi (fl + 1)"
    unfolding fl_def q_def by (rule floor_log2_quot_bounds(2) [OF n d])
  with q have lt: "(2::rat) powi 1024 < 2 powi (fl + 1)" by simp
  have "1024 < fl + 1"
  proof (rule ccontr)
    assume "\<not> 1024 < fl + 1"
    then have "fl + 1 \<le> 1024" by simp
    then have "(2::rat) powi (fl + 1) \<le> 2 powi 1024" by (rule power_int_increasing) simp
    with lt show False by simp
  qed
  then have e: "e = fl - 52" and e972: "971 < e" by (simp_all add: e_def)
  have "\<bar>(of_nat m :: rat) - of_nat (n * 2 ^ nat (- e)) / of_nat (d * 2 ^ nat e)\<bar> \<le> 1 / 2"
    unfolding m_def by (rule round_half_even_error) (use d in simp)
  then have r: "\<bar>(of_nat m :: rat) - q * 2 powi (- e)\<bar> \<le> 1 / 2"
    by (simp only: scaled_quotient [OF d] q_def)
  have "(2::rat) powi fl * 2 powi (- e) \<le> q * 2 powi (- e)"
    using lo by (intro mult_right_mono) simp_all
  moreover have "(2::rat) powi fl * 2 powi (- e) = 2 ^ 52"
    by (simp add: e flip: power_int_add)
  ultimately have "(2::rat) ^ 52 \<le> q * 2 powi (- e)" by simp
  moreover have "(1::rat) \<le> 2 ^ 52" by simp
  ultimately have "(1::rat) \<le> q * 2 powi (- e)" by (rule order_trans [rotated])
  with r have "(0::rat) < of_nat m" by linarith
  then have m0: "m \<noteq> 0" by simp
  from u m0 e972 show ?thesis by simp
qed

lemma py_truediv_rounding:
  "py_truediv a b = Inr f \<Longrightarrow> \<bar>float_value f - of_int a / of_int b\<bar> \<le> rounding_bound a b"
  unfolding rounding_bound_def by (rule py_truediv_error)

lemma py_truediv_denormalized:
  assumes "py_truediv a b = Inr f" and "0 < b"
  shows "\<bar>float_value f * of_int b - of_int a\<bar> \<le> rounding_bound a b * of_int b"
proof -
  have bpos: "(0::rat) < of_int b" using assms(2) by simp
  have "float_value f * of_int b - of_int a = (float_value f - of_int a / of_int b) * of_int b"
    using bpos by (simp add: field_simps)
  then have "\<bar>float_value f * of_int b - of_int a\<bar>
      = \<bar>float_value f - of_int a / of_int b\<bar> * of_int b"
    using bpos by (simp add: abs_mult)
  also have "\<dots> \<le> rounding_bound a b * of_int b"
    using py_truediv_rounding [OF assms(1)] bpos by (intro mult_right_mono) simp_all
  finally show ?thesis .
qed

subsection \<open>Divisions and float numerals evaluated\<close>

lemma py_truediv_eval:
  assumes "b \<noteq> 0" "a \<noteq> 0"
    and "floor_log2_quot (nat \<bar>a\<bar>) (nat \<bar>b\<bar>) = fl"
    and "max (fl - 52) (- 1074) = e"
    and "round_half_even (nat \<bar>a\<bar> * 2 ^ nat (- e)) (nat \<bar>b\<bar> * 2 ^ nat e) = m"
    and "m \<noteq> 0" "m \<noteq> 2 ^ 53" "e \<le> 971"
    and "neg = ((a < 0) \<noteq> (b < 0))"
  shows "py_truediv a b = Inr (PyFloat neg m e)"
proof -
  have e: "e = max (floor_log2_quot (nat \<bar>a\<bar>) (nat \<bar>b\<bar>) - 52) (- 1074)"
    by (simp only: assms(3) assms(4))
  have m: "m = round_half_even (nat \<bar>a\<bar> * 2 ^ nat (- e)) (nat \<bar>b\<bar> * 2 ^ nat e)"
    by (simp only: assms(5))
  from py_truediv_unfold [OF assms(1) assms(2) e m] assms(6) assms(7) assms(8) assms(9)
  show ?thesis by simp
qed

lemma bit_length_1: "bit_length (Suc 0) = 1"
  by (simp add: bit_length.simps)

lemma bit_length_10: "bit_length 10 = 4"
  by (simp add: bit_length.simps)

lemma bit_length_20: "bit_length 20 = 5"
  by (simp add: bit_length.simps)

lemma bit_length_49: "bit_length 49 = 6"
  by (simp add: bit_length.simps)

lemma bit_length_70: "bit_length 70 = 7"
  by (simp add: bit_length.simps)

lemma bit_length_100: "bit_length 100 = 7"
  by (simp add: bit_length.simps)

lemma bit_length_110: "bit_length 110 = 7"
  by (simp add: bit_length.simps)

lemma bit_length_200: "bit_length 200 = 8"
  by (simp add: bit_length.simps)

lemma truediv_10_100: "py_truediv 10 100 = Inr (PyFloat False 7205759403792794 (- 56))"
  by (rule py_truediv_eval [where fl = "- 4"])
     (simp_all add: floor_log2_quot_def bit_length_10 bit_length_100 round_half_even_def)

lemma truediv_0_100: "py_truediv 0 100 = Inr (PyFloat False 0 0)"
  by (simp add: py_truediv_zero_dividend)

lemma truediv_10_200: "py_truediv 10 200 = Inr (PyFloat False 7205759403792794 (- 57))"
  by (rule py_truediv_eval [where fl = "- 5"])
     (simp_all add: floor_log2_quot_def bit_length_10 bit_length_200 round_half_even_def)

lemma truediv_110_200: "py_truediv 110 200 = Inr (PyFloat False 4953959590107546 (- 53))"
  by (rule py_truediv_eval [where fl = "- 1"])
     (simp_all add: floor_log2_quot_def bit_length_110 bit_length_200 round_half_even_def)

lemma truediv_20_100: "py_truediv 20 100 = Inr (PyFloat False 7205759403792794 (- 55))"
  by (rule py_truediv_eval [where fl = "- 3"])
     (simp_all add: floor_log2_quot_def bit_length_20 bit_length_100 round_half_even_def)

lemma truediv_70_100: "py_truediv 70 100 = Inr (PyFloat False 6305039478318694 (- 53))"
  by (rule py_truediv_eval [where fl = "- 1"])
     (simp_all add: floor_log2_quot_def bit_length_70 bit_length_100 round_half_even_def)

lemma truediv_1_49: "py_truediv 1 49 = Inr (PyFloat False 5882252574524729 (- 58))"
  by (rule py_truediv_eval [where fl = "- 6"])
     (simp_all add: floor_log2_quot_def bit_length_1 bit_length_49 round_half_even_def)

lemma truediv_0_49: "py_truediv 0 49 = Inr (PyFloat False 0 0)"
  by (simp add: py_truediv_zero_dividend)

lemma float_str_zero: "float_str (PyFloat False 0 0) = ''0.0''"
  by (simp add: float_str_def)

lemma float_str_eval:
  assumes "m \<noteq> 0"
    and "decimal_point (m * 2 ^ nat e) (2 ^ nat (- e)) = p"
    and "shortest_decimal m e p 1 16 = (c, k)"
    and "str_nat c = digits"
    and "format_repr (strip_zeros digits) (k + int (length digits)) = s"
  shows "float_str (PyFloat False m e) = s"
  using assms(1) unfolding float_str_def Let_def pyfloat.sel assms(2) assms(3) prod.case assms(4) assms(5)
  by simp

lemma shortest_decimal_first:
  assumes a: "try_digits m e p 1 = Some c"
  shows "shortest_decimal m e p 1 16 = (c, p - 1)"
proof -
  have s: "shortest_decimal m e p 1 (Suc 15) = (c, p - int 1)"
    by (simp only: shortest_decimal.simps a option.case)
  have n: "Suc 15 = 16" by simp
  show ?thesis using s unfolding n by simp
qed

lemma shortest_decimal_second:
  assumes a: "try_digits m e p 1 = None" and b: "try_digits m e p 2 = Some c"
  shows "shortest_decimal m e p 1 16 = (c, p - 2)"
proof -
  have t: "Suc 1 = 2" by simp
  have s: "shortest_decimal m e p 1 (Suc (Suc 14)) = (c, p - int 2)"
    by (simp only: shortest_decimal.simps a b t option.case)
  have n: "Suc (Suc 14) = 16" by simp
  show ?thesis using s unfolding n by simp
qed

lemma str_nat_mantissa_01: "str_nat 7205759403792794 = ''7205759403792794''"
  by (simp add: str_nat.simps digit_char_def)

lemma decimal_length_mantissa_01: "decimal_length 7205759403792794 = 16"
  by (simp add: decimal_length_def str_nat_mantissa_01)

lemma decimal_length_2_56: "decimal_length 72057594037927936 = 17"
  by (simp add: decimal_length_def str_nat.simps digit_char_def)

lemma decimal_point_01: "decimal_point (7205759403792794 * 2 ^ nat (- 56)) (2 ^ nat (- (- 56))) = 0"
  by (simp add: decimal_point_def decimal_length_mantissa_01 decimal_length_2_56 Let_def)

lemma try_digits_01: "try_digits 7205759403792794 (- 56) 0 1 = Some 1"
  by (simp add: try_digits_def reads_back_def Let_def)

lemma float_str_01: "float_str (PyFloat False 7205759403792794 (- 56)) = ''0.1''"
proof (rule float_str_eval)
  show "(7205759403792794::nat) \<noteq> 0" by simp
  show "decimal_point (7205759403792794 * 2 ^ nat (- 56)) (2 ^ nat (- (- 56))) = 0"
    by (rule decimal_point_01)
  show "shortest_decimal 7205759403792794 (- 56) 0 1 16 = (1, - 1)"
    using shortest_decimal_first [OF try_digits_01] by simp
  show "str_nat 1 = ''1''" by (simp add: str_nat.simps digit_char_def)
  show "format_repr (strip_zeros ''1'') (- 1 + int (length ''1'')) = ''0.1''"
    by (simp add: format_repr_def strip_zeros_def)
qed

lemma decimal_length_2_57: "decimal_length 144115188075855872 = 18"
  by (simp add: decimal_length_def str_nat.simps digit_char_def)

lemma decimal_length_2_55: "decimal_length 36028797018963968 = 17"
  by (simp add: decimal_length_def str_nat.simps digit_char_def)

lemma decimal_length_2_53: "decimal_length 9007199254740992 = 16"
  by (simp add: decimal_length_def str_nat.simps digit_char_def)

lemma decimal_length_mantissa_055: "decimal_length 4953959590107546 = 16"
  by (simp add: decimal_length_def str_nat.simps digit_char_def)

lemma decimal_length_mantissa_07: "decimal_length 6305039478318694 = 16"
  by (simp add: decimal_length_def str_nat.simps digit_char_def)

lemma try_digits_005: "try_digits 7205759403792794 (- 57) (- 1) 1 = Some 5"
  by (simp add: try_digits_def reads_back_def Let_def)

lemma try_digits_02: "try_digits 7205759403792794 (- 55) 0 1 = Some 2"
  by (simp add: try_digits_def reads_back_def Let_def)

lemma try_digits_055_1: "try_digits 4953959590107546 (- 53) 0 1 = None"
  by (simp add: try_digits_def reads_back_def Let_def)

lemma try_digits_055_2: "try_digits 4953959590107546 (- 53) 0 2 = Some 55"
  by (simp add: try_digits_def reads_back_def Let_def)

lemma try_digits_07: "try_digits 6305039478318694 (- 53) 0 1 = Some 7"
  by (simp add: try_digits_def reads_back_def Let_def)

lemma float_str_005: "float_str (PyFloat False 7205759403792794 (- 57)) = ''0.05''"
proof (rule float_str_eval)
  show "(7205759403792794::nat) \<noteq> 0" by simp
  show "decimal_point (7205759403792794 * 2 ^ nat (- 57)) (2 ^ nat (- (- 57))) = - 1"
    by (simp add: decimal_point_def decimal_length_mantissa_01 decimal_length_2_57 Let_def)
  show "shortest_decimal 7205759403792794 (- 57) (- 1) 1 16 = (5, - 2)"
    using shortest_decimal_first [OF try_digits_005] by simp
  show "str_nat 5 = ''5''" by (simp add: str_nat.simps digit_char_def)
  show "format_repr (strip_zeros ''5'') (- 2 + int (length ''5'')) = ''0.05''"
    by (simp add: format_repr_def strip_zeros_def)
qed

lemma float_str_02: "float_str (PyFloat False 7205759403792794 (- 55)) = ''0.2''"
proof (rule float_str_eval)
  show "(7205759403792794::nat) \<noteq> 0" by simp
  show "decimal_point (7205759403792794 * 2 ^ nat (- 55)) (2 ^ nat (- (- 55))) = 0"
    by (simp add: decimal_point_def decimal_length_mantissa_01 decimal_length_2_55 Let_def)
  show "shortest_decimal 7205759403792794 (- 55) 0 1 16 = (2, - 1)"
    using shortest_decimal_first [OF try_digits_02] by simp
  show "str_nat 2 = ''2''" by (simp add: str_nat.simps digit_char_def)
  show "format_repr (strip_zeros ''2'') (- 1 + int (length ''2'')) = ''0.2''"
    by (simp add: format_repr_def strip_zeros_def)
qed

lemma float_str_055: "float_str (PyFloat False 4953959590107546 (- 53)) = ''0.55''"
proof (rule float_str_eval)
  show "(4953959590107546::nat) \<noteq> 0" by simp
  show "decimal_point (4953959590107546 * 2 ^ nat (- 53)) (2 ^ nat (- (- 53))) = 0"
    by (simp add: decimal_point_def decimal_length_mantissa_055 decimal_length_2_53 Let_def)
  show "shortest_decimal 4953959590107546 (- 53) 0 1 16 = (55, - 2)"
    using shortest_decimal_second [OF try_digits_055_1 try_digits_055_2] by simp
  show "str_nat 55 = ''55''" by (simp add: str_nat.simps digit_char_def)
  show "format_repr (strip_zeros ''55'') (- 2 + int (length ''55'')) = ''0.55''"
    by (simp add: format_repr_def strip_zeros_def)
qed

lemma float_str_07: "float_str (PyFloat False 6305039478318694 (- 53)) = ''0.7''"
proof (rule float_str_eval)
  show "(6305039478318694::nat) \<noteq> 0" by simp
  show "decimal_point (6305039478318694 * 2 ^ nat (- 53)) (2 ^ nat (- (- 53))) = 0"
    by (simp add: decimal_point_def decimal_length_mantissa_07 decimal_length_2_53 Let_def)
  show "shortest_decimal 6305039478318694 (- 53) 0 1 16 = (7, - 1)"
    using shortest_decimal_first [OF try_digits_07] by simp
  show "str_nat 7 = ''7''" by (simp add: str_nat.simps digit_char_def)
  show "format_repr (strip_zeros ''7'') (- 1 + int (length ''7'')) = ''0.7''"
    by (simp add: format_repr_def strip_zeros_def)
qed

lemma rectangle_unfold:
  "rectangle_to_polygon_normalized x0 y0 width height img_width img_height =
     bind_err (py_truediv x0 img_width) (\<lambda>a.
     bind_err (py_truediv y0 img_height) (\<lambda>b.
     bind_err (py_truediv (x0 + width) img_width) (\<lambda>c.
     bind_err (py_truediv y0 img_height) (\<lambda>b'.
     bind_err (py_truediv (x0 + width) img_width) (\<lambda>c'.
     bind_err (py_truediv (y0 + height) img_height) (\<lambda>d.
     bind_err (py_truediv x0 img_width) (\<lambda>a'.
     bind_err (py_truediv (y0 + height) img_height) (\<lambda>d'.
     Inr [a, b, c, b', c', d, a', d']))))))))"
  by (simp add: rectangle_to_polygon_normalized_def Let_def)

lemma rectangle_Inr_iff:
  "rectangle_to_polygon_normalized x0 y0 width height img_width img_height = Inr ps \<longleftrightarrow>
     (\<exists>a b c d. py_truediv x0 img_width = Inr a \<and> py_truediv y0 img_height = Inr b
        \<and> py_truediv (x0 + width) img_width = Inr c
        \<and> py_truediv (y0 + height) img_height = Inr d
        \<and> ps = [a, b, c, b, c, d, a, d])"
  unfolding rectangle_unfold bind_err_def
  by (cases "py_truediv x0 img_width"; cases "py_truediv y0 img_height";
      cases "py_truediv (x0 + width) img_width"; cases "py_truediv (y0 + height) img_height")
     auto

lemma rectangle_example:
  "rectangle_to_polygon_normalized 10 20 100 50 200 100 =
     Inr [PyFloat False 7205759403792794 (- 57), PyFloat False 7205759403792794 (- 55),
          PyFloat False 4953959590107546 (- 53), PyFloat False 7205759403792794 (- 55),
          PyFloat False 4953959590107546 (- 53), PyFloat False 6305039478318694 (- 53),
          PyFloat False 7205759403792794 (- 57), PyFloat False 6305039478318694 (- 53)]"
  by (simp add: rectangle_Inr_iff truediv_10_200 truediv_20_100 truediv_110_200 truediv_70_100)

lemma rectangle_unit_square:
  "rectangle_to_polygon_normalized 0 0 10 10 100 100 =
     Inr [PyFloat False 0 0, PyFloat False 0 0,
          PyFloat False 7205759403792794 (- 56), PyFloat False 0 0,
          PyFloat False 7205759403792794 (- 56), PyFloat False 7205759403792794 (- 56),
          PyFloat False 0 0, PyFloat False 7205759403792794 (- 56)]"
  by (simp add: rectangle_Inr_iff truediv_0_100 truediv_10_100)

lemma str_int_2: "str_int 2 = ''2''"
  by (simp add: str_int_def str_nat.simps digit_char_def)

lemma label_line_example:
  "label_line 2 [PyFloat False 0 0, PyFloat False 0 0,
          PyFloat False 7205759403792794 (- 56), PyFloat False 0 0,
          PyFloat False 7205759403792794 (- 56), PyFloat False 7205759403792794 (- 56),
          PyFloat False 0 0, PyFloat False 7205759403792794 (- 56)]
   = ''2 0.0 0.0 0.1 0.0 0.1 0.1 0.0 0.1'' @ [CHR 0x0A]"
  by (simp add: label_line_def str_int_2 float_str_zero float_str_01)

section \<open>Properties of the geometry\<close>

subsection \<open>A zero image dimension\<close>

text \<open>
  C7 says that a zero \<open>img_width\<close> or \<open>img_height\<close> gives a distinct
  \<open>InvalidDimension\<close> error instead of the raw failure of the division. The code has
  no such error and no check of the dimensions: what is raised is the
  \<open>ZeroDivisionError\<close> of the division itself.
\<close>

theorem zero_dimension_raw_error:
  "rectangle_to_polygon_normalized 10 20 100 50 0 100 = Inl ZeroDivisionError
   \<and> rectangle_to_polygon_normalized 10 20 100 50 200 0 = Inl ZeroDivisionError"
proof -
  have a: "rectangle_to_polygon_normalized 10 20 100 50 0 100 = Inl ZeroDivisionError"
    by (simp add: rectangle_unfold bind_err_def py_truediv_zero_divisor)
  have b: "rectangle_to_polygon_normalized 10 20 100 50 200 0 = Inl ZeroDivisionError"
    by (simp add: rectangle_unfold bind_err_def truediv_10_200 py_truediv_zero_divisor)
  from a b show ?thesis ..
qed

text \<open>
  C7, amended: with \<open>img_width = 0\<close> the function raises \<open>ZeroDivisionError\<close>, the
  raw failure of its first division, and returns nothing. With \<open>img_height = 0\<close> it
  returns nothing either: it raises \<open>ZeroDivisionError\<close> at its second division,
  unless the first one, \<open>x0 / img_width\<close>, has already raised (\<open>ZeroDivisionError\<close>
  again, or \<open>OverflowError\<close> for an \<open>x0\<close> of \<open>2 ^ 1023\<close> image widths or more).
\<close>

theorem zero_dimension_raises:
  "(img_width = 0 \<longrightarrow>
      rectangle_to_polygon_normalized x0 y0 width height img_width img_height
        = Inl ZeroDivisionError)
   \<and> (img_height = 0 \<longrightarrow>
      rectangle_to_polygon_normalized x0 y0 width height img_width img_height
        = Inl ZeroDivisionError
      \<or> rectangle_to_polygon_normalized x0 y0 width height img_width img_height
        = Inl OverflowError)
   \<and> (img_height = 0 \<and> \<bar>x0\<bar> < 2 ^ 1023 * \<bar>img_width\<bar> \<longrightarrow>
      rectangle_to_polygon_normalized x0 y0 width height img_width img_height
        = Inl ZeroDivisionError)"
proof -
  let ?r = "rectangle_to_polygon_normalized x0 y0 width height img_width img_height"
  have a: "img_width = 0 \<longrightarrow> ?r = Inl ZeroDivisionError"
    by (simp add: rectangle_unfold bind_err_def py_truediv_zero_divisor)
  have h: "img_height = 0 \<Longrightarrow>
      ?r = (case py_truediv x0 img_width of Inl e \<Rightarrow> Inl e | Inr f \<Rightarrow> Inl ZeroDivisionError)"
    by (simp add: rectangle_unfold bind_err_def py_truediv_zero_divisor split: sum.splits)
  have b: "img_height = 0 \<longrightarrow> ?r = Inl ZeroDivisionError \<or> ?r = Inl OverflowError"
  proof
    assume z: "img_height = 0"
    show "?r = Inl ZeroDivisionError \<or> ?r = Inl OverflowError"
    proof (cases "py_truediv x0 img_width")
      case (Inl e)
      then have "e = ZeroDivisionError \<or> e = OverflowError"
        using py_truediv_errors by blast
      with Inl h [OF z] show ?thesis by auto
    next
      case (Inr f)
      with h [OF z] show ?thesis by simp
    qed
  qed
  have c: "img_height = 0 \<and> \<bar>x0\<bar> < 2 ^ 1023 * \<bar>img_width\<bar> \<longrightarrow> ?r = Inl ZeroDivisionError"
  proof
    assume p: "img_height = 0 \<and> \<bar>x0\<bar> < 2 ^ 1023 * \<bar>img_width\<bar>"
    show "?r = Inl ZeroDivisionError"
    proof (cases "img_width = 0")
      case True
      with a show ?thesis by simp
    next
      case False
      from py_truediv_returns [OF False] p obtain f where "py_truediv x0 img_width = Inr f"
        by blast
      with h p show ?thesis by simp
    qed
  qed
  from a b c show ?thesis by blast
qed

theorem zero_dimension_raises_witness:
  "rectangle_to_polygon_normalized 3 4 5 6 0 7 = Inl ZeroDivisionError
   \<and> rectangle_to_polygon_normalized 3 4 5 6 7 0 = Inl ZeroDivisionError"
proof -
  note t = zero_dimension_raises [of 0 3 4 5 6 7]
  then have a: "rectangle_to_polygon_normalized 3 4 5 6 0 7 = Inl ZeroDivisionError"
    by simp
  note u = zero_dimension_raises [of 7 3 4 5 6 0]
  have "(0::int) = 0 \<and> \<bar>3::int\<bar> < 2 ^ 1023 * \<bar>7\<bar>" by simp
  with u have b: "rectangle_to_polygon_normalized 3 4 5 6 7 0 = Inl ZeroDivisionError"
    by blast
  from a b show ?thesis ..
qed

subsection \<open>The corners\<close>

text \<open>
  C2, as stated for every rectangle, does not hold: a quotient too large for a float
  makes the division raise \<open>OverflowError\<close>, with both image dimensions non-zero.
\<close>

theorem rectangle_overflow:
  "rectangle_to_polygon_normalized (2 ^ 1024) 0 1 1 1 1 = Inl OverflowError"
proof -
  have "py_truediv (2 ^ 1024) 1 = Inl OverflowError"
    by (rule py_truediv_overflow) simp_all
  then show ?thesis by (simp add: rectangle_unfold bind_err_def)
qed

text \<open>
  C2, amended: for non-zero \<open>img_width\<close> and \<open>img_height\<close>, whenever the function
  returns, it returns the eight values \<open>x0 / img_width\<close>, \<open>y0 / img_height\<close>,
  \<open>(x0 + width) / img_width\<close>, \<open>y0 / img_height\<close>, \<open>(x0 + width) / img_width\<close>,
  \<open>(y0 + height) / img_height\<close>, \<open>x0 / img_width\<close>, \<open>(y0 + height) / img_height\<close>:
  the corners clockwise from the top left, where \<open>/\<close> is the true division of Python,
  whose result is within the rounding error of a float of the exact quotient. It does
  return when the four corner coordinates are below \<open>2 ^ 1023\<close> image dimensions in
  magnitude, and the only exception it can raise is \<open>OverflowError\<close>. For
  \<open>x0 = 10\<close>, \<open>y0 = 20\<close>, \<open>width = 100\<close>, \<open>height = 50\<close> and an image of
  200 by 100 it returns the floats that Python prints as
  \<open>[0.05, 0.2, 0.55, 0.2, 0.55, 0.7, 0.05, 0.7]\<close>.
\<close>

theorem rectangle_corners_normalized:
  assumes "img_width \<noteq> 0" and "img_height \<noteq> 0"
  shows "(\<bar>x0\<bar> < 2 ^ 1023 * \<bar>img_width\<bar> \<and> \<bar>x0 + width\<bar> < 2 ^ 1023 * \<bar>img_width\<bar>
          \<and> \<bar>y0\<bar> < 2 ^ 1023 * \<bar>img_height\<bar> \<and> \<bar>y0 + height\<bar> < 2 ^ 1023 * \<bar>img_height\<bar> \<longrightarrow>
            (\<exists>ps. rectangle_to_polygon_normalized x0 y0 width height img_width img_height = Inr ps))
    \<and> (\<forall>ps. rectangle_to_polygon_normalized x0 y0 width height img_width img_height = Inr ps \<longrightarrow>
          (\<exists>a b c d. ps = [a, b, c, b, c, d, a, d]
             \<and> py_truediv x0 img_width = Inr a
             \<and> py_truediv y0 img_height = Inr b
             \<and> py_truediv (x0 + width) img_width = Inr c
             \<and> py_truediv (y0 + height) img_height = Inr d
             \<and> \<bar>float_value a - of_int x0 / of_int img_width\<bar> \<le> rounding_bound x0 img_width
             \<and> \<bar>float_value b - of_int y0 / of_int img_height\<bar> \<le> rounding_bound y0 img_height
             \<and> \<bar>float_value c - of_int (x0 + width) / of_int img_width\<bar>
                  \<le> rounding_bound (x0 + width) img_width
             \<and> \<bar>float_value d - of_int (y0 + height) / of_int img_height\<bar>
                  \<le> rounding_bound (y0 + height) img_height))
    \<and> (\<forall>e. rectangle_to_polygon_normalized x0 y0 width height img_width img_height = Inl e \<longrightarrow>
          e = OverflowError)
    \<and> rectangle_to_polygon_normalized 10 20 100 50 200 100 =
         Inr [PyFloat False 7205759403792794 (- 57), PyFloat False 7205759403792794 (- 55),
              PyFloat False 4953959590107546 (- 53), PyFloat False 7205759403792794 (- 55),
              PyFloat False 4953959590107546 (- 53), PyFloat False 6305039478318694 (- 53),
              PyFloat False 7205759403792794 (- 57), PyFloat False 6305039478318694 (- 53)]
    \<and> map float_str
         [PyFloat False 7205759403792794 (- 57), PyFloat False 7205759403792794 (- 55),
          PyFloat False 4953959590107546 (- 53), PyFloat False 7205759403792794 (- 55),
          PyFloat False 4953959590107546 (- 53), PyFloat False 6305039478318694 (- 53),
          PyFloat False 7205759403792794 (- 57), PyFloat False 6305039478318694 (- 53)]
       = [''0.05'', ''0.2'', ''0.55'', ''0.2'', ''0.55'', ''0.7'', ''0.05'', ''0.7'']"
proof -
  let ?r = "rectangle_to_polygon_normalized x0 y0 width height img_width img_height"
  have ex: "\<bar>x0\<bar> < 2 ^ 1023 * \<bar>img_width\<bar> \<and> \<bar>x0 + width\<bar> < 2 ^ 1023 * \<bar>img_width\<bar>
          \<and> \<bar>y0\<bar> < 2 ^ 1023 * \<bar>img_height\<bar> \<and> \<bar>y0 + height\<bar> < 2 ^ 1023 * \<bar>img_height\<bar> \<longrightarrow>
            (\<exists>ps. ?r = Inr ps)"
  proof
    assume h: "\<bar>x0\<bar> < 2 ^ 1023 * \<bar>img_width\<bar> \<and> \<bar>x0 + width\<bar> < 2 ^ 1023 * \<bar>img_width\<bar>
          \<and> \<bar>y0\<bar> < 2 ^ 1023 * \<bar>img_height\<bar> \<and> \<bar>y0 + height\<bar> < 2 ^ 1023 * \<bar>img_height\<bar>"
    from h py_truediv_returns [OF assms(1)] obtain a where a: "py_truediv x0 img_width = Inr a"
      by blast
    from h py_truediv_returns [OF assms(1)] obtain c where c: "py_truediv (x0 + width) img_width = Inr c"
      by blast
    from h py_truediv_returns [OF assms(2)] obtain b where b: "py_truediv y0 img_height = Inr b"
      by blast
    from h py_truediv_returns [OF assms(2)] obtain d where d: "py_truediv (y0 + height) img_height = Inr d"
      by blast
    from a b c d show "\<exists>ps. ?r = Inr ps" by (simp add: rectangle_Inr_iff)
  qed
  have corners: "\<forall>ps. ?r = Inr ps \<longrightarrow>
          (\<exists>a b c d. ps = [a, b, c, b, c, d, a, d]
             \<and> py_truediv x0 img_width = Inr a
             \<and> py_truediv y0 img_height = Inr b
             \<and> py_truediv (x0 + width) img_width = Inr c
             \<and> py_truediv (y0 + height) img_height = Inr d
             \<and> \<bar>float_value a - of_int x0 / of_int img_width\<bar> \<le> rounding_bound x0 img_width
             \<and> \<bar>float_value b - of_int y0 / of_int img_height\<bar> \<le> rounding_bound y0 img_height
             \<and> \<bar>float_value c - of_int (x0 + width) / of_int img_width\<bar>
                  \<le> rounding_bound (x0 + width) img_width
             \<and> \<bar>float_value d - of_int (y0 + height) / of_int img_height\<bar>
                  \<le> rounding_bound (y0 + height) img_height)"
  proof (intro allI impI)
    fix ps
    assume "?r = Inr ps"
    then obtain a b c d where q: "py_truediv x0 img_width = Inr a"
      "py_truediv y0 img_height = Inr b" "py_truediv (x0 + width) img_width = Inr c"
      "py_truediv (y0 + height) img_height = Inr d" and ps: "ps = [a, b, c, b, c, d, a, d]"
      unfolding rectangle_Inr_iff by blast
    from ps q py_truediv_rounding [OF q(1)] py_truediv_rounding [OF q(2)]
      py_truediv_rounding [OF q(3)] py_truediv_rounding [OF q(4)]
    show "\<exists>a b c d. ps = [a, b, c, b, c, d, a, d]
             \<and> py_truediv x0 img_width = Inr a
             \<and> py_truediv y0 img_height = Inr b
             \<and> py_truediv (x0 + width) img_width = Inr c
             \<and> py_truediv (y0 + height) img_height = Inr d
             \<and> \<bar>float_value a - of_int x0 / of_int img_width\<bar> \<le> rounding_bound x0 img_width
             \<and> \<bar>float_value b - of_int y0 / of_int img_height\<bar> \<le> rounding_bound y0 img_height
             \<and> \<bar>float_value c - of_int (x0 + width) / of_int img_width\<bar>
                  \<le> rounding_bound (x0 + width) img_width
             \<and> \<bar>float_value d - of_int (y0 + height) / of_int img_height\<bar>
                  \<le> rounding_bound (y0 + height) img_height"
      by blast
  qed
  have err: "\<forall>e. ?r = Inl e \<longrightarrow> e = OverflowError"
  proof (intro allI impI)
    fix e
    assume r: "?r = Inl e"
    have k: "\<And>a b err. py_truediv a b = Inl err \<Longrightarrow> b \<noteq> 0 \<Longrightarrow> err = OverflowError"
      using py_truediv_errors by blast
    from r show "e = OverflowError"
      unfolding rectangle_unfold bind_err_def
      by (auto split: sum.splits dest: k [OF _ assms(1)] k [OF _ assms(2)])
  qed
  have strs: "map float_str
         [PyFloat False 7205759403792794 (- 57), PyFloat False 7205759403792794 (- 55),
          PyFloat False 4953959590107546 (- 53), PyFloat False 7205759403792794 (- 55),
          PyFloat False 4953959590107546 (- 53), PyFloat False 6305039478318694 (- 53),
          PyFloat False 7205759403792794 (- 57), PyFloat False 6305039478318694 (- 53)]
       = [''0.05'', ''0.2'', ''0.55'', ''0.2'', ''0.55'', ''0.7'', ''0.05'', ''0.7'']"
    by (simp add: float_str_005 float_str_02 float_str_055 float_str_07)
  from ex corners err rectangle_example strs show ?thesis by (intro conjI)
qed

theorem rectangle_corners_normalized_witness:
  "(200 :: int) \<noteq> 0 \<and> (100 :: int) \<noteq> 0
   \<and> (\<exists>ps. rectangle_to_polygon_normalized 10 20 100 50 200 100 = Inr ps)"
proof -
  have a: "(200 :: int) \<noteq> 0" and b: "(100 :: int) \<noteq> 0" by simp_all
  have h: "\<bar>10 :: int\<bar> < 2 ^ 1023 * \<bar>200\<bar> \<and> \<bar>10 + 100 :: int\<bar> < 2 ^ 1023 * \<bar>200\<bar>
          \<and> \<bar>20 :: int\<bar> < 2 ^ 1023 * \<bar>100\<bar> \<and> \<bar>20 + 50 :: int\<bar> < 2 ^ 1023 * \<bar>100\<bar>"
    by simp
  note t = rectangle_corners_normalized [OF a b, where ?x0.0 = 10 and width = 100
      and ?y0.0 = 20 and height = 50]
  from t [THEN conjunct1] h
  have "\<exists>ps. rectangle_to_polygon_normalized 10 20 100 50 200 100 = Inr ps"
    by (rule mp)
  with a b show ?thesis by (intro conjI)
qed

subsection \<open>Denormalizing the polygon\<close>

text \<open>
  C6 says that multiplying the eight values by the image dimensions gives back a
  rectangle whose sides are exactly \<open>width\<close> and \<open>height\<close>. The values are floats,
  rounded by the division, so this is not so: for a rectangle of width 1 in an image of
  width 49 the denormalized width is \<open>1 - 23 / 2 ^ 58\<close>.
\<close>

theorem round_trip_inexact:
  "rectangle_to_polygon_normalized 0 0 1 1 49 49 =
     Inr [PyFloat False 0 0, PyFloat False 0 0,
          PyFloat False 5882252574524729 (- 58), PyFloat False 0 0,
          PyFloat False 5882252574524729 (- 58), PyFloat False 5882252574524729 (- 58),
          PyFloat False 0 0, PyFloat False 5882252574524729 (- 58)]
   \<and> denormalize
       [PyFloat False 0 0, PyFloat False 0 0,
        PyFloat False 5882252574524729 (- 58), PyFloat False 0 0,
        PyFloat False 5882252574524729 (- 58), PyFloat False 5882252574524729 (- 58),
        PyFloat False 0 0, PyFloat False 5882252574524729 (- 58)] 49 49
     = [0, 0, 288230376151711721 / 288230376151711744, 0,
        288230376151711721 / 288230376151711744, 288230376151711721 / 288230376151711744,
        0, 288230376151711721 / 288230376151711744]
   \<and> (288230376151711721 / 288230376151711744 :: rat) - 0 \<noteq> 1"
proof -
  have a: "rectangle_to_polygon_normalized 0 0 1 1 49 49 =
     Inr [PyFloat False 0 0, PyFloat False 0 0,
          PyFloat False 5882252574524729 (- 58), PyFloat False 0 0,
          PyFloat False 5882252574524729 (- 58), PyFloat False 5882252574524729 (- 58),
          PyFloat False 0 0, PyFloat False 5882252574524729 (- 58)]"
    by (simp add: rectangle_Inr_iff truediv_0_49 truediv_1_49)
  have v: "float_value (PyFloat False 5882252574524729 (- 58)) * 49
      = 288230376151711721 / 288230376151711744"
    by (simp add: float_value_def power_int_minus)
  have z: "float_value (PyFloat False 0 0) = 0"
    by (simp add: float_value_def)
  have b: "denormalize
       [PyFloat False 0 0, PyFloat False 0 0,
        PyFloat False 5882252574524729 (- 58), PyFloat False 0 0,
        PyFloat False 5882252574524729 (- 58), PyFloat False 5882252574524729 (- 58),
        PyFloat False 0 0, PyFloat False 5882252574524729 (- 58)] 49 49
     = [0, 0, 288230376151711721 / 288230376151711744, 0,
        288230376151711721 / 288230376151711744, 288230376151711721 / 288230376151711744,
        0, 288230376151711721 / 288230376151711744]"
    using v z by simp
  have c: "(288230376151711721 / 288230376151711744 :: rat) - 0 \<noteq> 1"
    by simp
  from a b c show ?thesis by (intro conjI)
qed

text \<open>
  C6, amended: for positive \<open>img_width\<close> and \<open>img_height\<close>, whenever the function
  returns (it does when the corner coordinates are below \<open>2 ^ 1023\<close> image dimensions
  in magnitude), it returns exactly 8 values, and denormalizing them gives the four
  corners \<open>(X0, Y0)\<close>, \<open>(X1, Y0)\<close>, \<open>(X1, Y1)\<close>, \<open>(X0, Y1)\<close> of an axis-aligned
  rectangle, each coordinate within the rounding error of one division of the given
  corner coordinate, hence side lengths within the rounding errors of two divisions of
  \<open>width\<close> and \<open>height\<close>.
\<close>

theorem rectangle_round_trip:
  assumes "0 < img_width" and "0 < img_height"
  shows "(\<bar>x0\<bar> < 2 ^ 1023 * img_width \<and> \<bar>x0 + width\<bar> < 2 ^ 1023 * img_width
          \<and> \<bar>y0\<bar> < 2 ^ 1023 * img_height \<and> \<bar>y0 + height\<bar> < 2 ^ 1023 * img_height \<longrightarrow>
            (\<exists>ps. rectangle_to_polygon_normalized x0 y0 width height img_width img_height = Inr ps))
    \<and> (\<forall>ps. rectangle_to_polygon_normalized x0 y0 width height img_width img_height = Inr ps \<longrightarrow>
          length ps = 8
          \<and> (\<exists>X0 Y0 X1 Y1.
                denormalize ps img_width img_height = [X0, Y0, X1, Y0, X1, Y1, X0, Y1]
              \<and> \<bar>X0 - of_int x0\<bar> \<le> rounding_bound x0 img_width * of_int img_width
              \<and> \<bar>X1 - of_int (x0 + width)\<bar>
                   \<le> rounding_bound (x0 + width) img_width * of_int img_width
              \<and> \<bar>Y0 - of_int y0\<bar> \<le> rounding_bound y0 img_height * of_int img_height
              \<and> \<bar>Y1 - of_int (y0 + height)\<bar>
                   \<le> rounding_bound (y0 + height) img_height * of_int img_height
              \<and> \<bar>(X1 - X0) - of_int width\<bar>
                   \<le> rounding_bound x0 img_width * of_int img_width
                     + rounding_bound (x0 + width) img_width * of_int img_width
              \<and> \<bar>(Y1 - Y0) - of_int height\<bar>
                   \<le> rounding_bound y0 img_height * of_int img_height
                     + rounding_bound (y0 + height) img_height * of_int img_height))"
proof -
  let ?r = "rectangle_to_polygon_normalized x0 y0 width height img_width img_height"
  have w0: "img_width \<noteq> 0" and h0: "img_height \<noteq> 0" using assms by simp_all
  have aw: "\<bar>img_width\<bar> = img_width" and ah: "\<bar>img_height\<bar> = img_height" using assms by simp_all
  have ex: "\<bar>x0\<bar> < 2 ^ 1023 * img_width \<and> \<bar>x0 + width\<bar> < 2 ^ 1023 * img_width
          \<and> \<bar>y0\<bar> < 2 ^ 1023 * img_height \<and> \<bar>y0 + height\<bar> < 2 ^ 1023 * img_height \<longrightarrow>
            (\<exists>ps. ?r = Inr ps)"
  proof
    assume h: "\<bar>x0\<bar> < 2 ^ 1023 * img_width \<and> \<bar>x0 + width\<bar> < 2 ^ 1023 * img_width
          \<and> \<bar>y0\<bar> < 2 ^ 1023 * img_height \<and> \<bar>y0 + height\<bar> < 2 ^ 1023 * img_height"
    from h aw py_truediv_returns [OF w0, of x0] obtain a where a: "py_truediv x0 img_width = Inr a"
      by auto
    from h aw py_truediv_returns [OF w0, of "x0 + width"]
    obtain c where c: "py_truediv (x0 + width) img_width = Inr c"
      by auto
    from h ah py_truediv_returns [OF h0, of y0] obtain b where b: "py_truediv y0 img_height = Inr b"
      by auto
    from h ah py_truediv_returns [OF h0, of "y0 + height"]
    obtain d where d: "py_truediv (y0 + height) img_height = Inr d"
      by auto
    from a b c d show "\<exists>ps. ?r = Inr ps" by (simp add: rectangle_Inr_iff)
  qed
  have rt: "\<forall>ps. ?r = Inr ps \<longrightarrow>
          length ps = 8
          \<and> (\<exists>X0 Y0 X1 Y1.
                denormalize ps img_width img_height = [X0, Y0, X1, Y0, X1, Y1, X0, Y1]
              \<and> \<bar>X0 - of_int x0\<bar> \<le> rounding_bound x0 img_width * of_int img_width
              \<and> \<bar>X1 - of_int (x0 + width)\<bar>
                   \<le> rounding_bound (x0 + width) img_width * of_int img_width
              \<and> \<bar>Y0 - of_int y0\<bar> \<le> rounding_bound y0 img_height * of_int img_height
              \<and> \<bar>Y1 - of_int (y0 + height)\<bar>
                   \<le> rounding_bound (y0 + height) img_height * of_int img_height
              \<and> \<bar>(X1 - X0) - of_int width\<bar>
                   \<le> rounding_bound x0 img_width * of_int img_width
                     + rounding_bound (x0 + width) img_width * of_int img_width
              \<and> \<bar>(Y1 - Y0) - of_int height\<bar>
                   \<le> rounding_bound y0 img_height * of_int img_height
                     + rounding_bound (y0 + height) img_height * of_int img_height)"
  proof (intro allI impI)
    fix ps
    assume "?r = Inr ps"
    then obtain a b c d where q: "py_truediv x0 img_width = Inr a"
      "py_truediv y0 img_height = Inr b" "py_truediv (x0 + width) img_width = Inr c"
      "py_truediv (y0 + height) img_height = Inr d" and ps: "ps = [a, b, c, b, c, d, a, d]"
      unfolding rectangle_Inr_iff by blast
    define X0 where "X0 = float_value a * of_int img_width"
    define X1 where "X1 = float_value c * of_int img_width"
    define Y0 where "Y0 = float_value b * of_int img_height"
    define Y1 where "Y1 = float_value d * of_int img_height"
    have len: "length ps = 8" by (simp add: ps)
    have den: "denormalize ps img_width img_height = [X0, Y0, X1, Y0, X1, Y1, X0, Y1]"
      by (simp add: ps X0_def X1_def Y0_def Y1_def)
    have e0: "\<bar>X0 - of_int x0\<bar> \<le> rounding_bound x0 img_width * of_int img_width"
      unfolding X0_def by (rule py_truediv_denormalized [OF q(1) assms(1)])
    have e1: "\<bar>X1 - of_int (x0 + width)\<bar> \<le> rounding_bound (x0 + width) img_width * of_int img_width"
      unfolding X1_def by (rule py_truediv_denormalized [OF q(3) assms(1)])
    have f0: "\<bar>Y0 - of_int y0\<bar> \<le> rounding_bound y0 img_height * of_int img_height"
      unfolding Y0_def by (rule py_truediv_denormalized [OF q(2) assms(2)])
    have f1: "\<bar>Y1 - of_int (y0 + height)\<bar> \<le> rounding_bound (y0 + height) img_height * of_int img_height"
      unfolding Y1_def by (rule py_truediv_denormalized [OF q(4) assms(2)])
    have "(X1 - X0) - of_int width = (X1 - of_int (x0 + width)) - (X0 - of_int x0)"
      by simp
    then have "\<bar>(X1 - X0) - of_int width\<bar> \<le> \<bar>X1 - of_int (x0 + width)\<bar> + \<bar>X0 - of_int x0\<bar>"
      by (simp only: abs_triangle_ineq4)
    with e0 e1 have sw: "\<bar>(X1 - X0) - of_int width\<bar>
                   \<le> rounding_bound x0 img_width * of_int img_width
                     + rounding_bound (x0 + width) img_width * of_int img_width"
      by linarith
    have "(Y1 - Y0) - of_int height = (Y1 - of_int (y0 + height)) - (Y0 - of_int y0)"
      by simp
    then have "\<bar>(Y1 - Y0) - of_int height\<bar> \<le> \<bar>Y1 - of_int (y0 + height)\<bar> + \<bar>Y0 - of_int y0\<bar>"
      by (simp only: abs_triangle_ineq4)
    with f0 f1 have sh: "\<bar>(Y1 - Y0) - of_int height\<bar>
                   \<le> rounding_bound y0 img_height * of_int img_height
                     + rounding_bound (y0 + height) img_height * of_int img_height"
      by linarith
    from len den e0 e1 f0 f1 sw sh
    show "length ps = 8
          \<and> (\<exists>X0 Y0 X1 Y1.
                denormalize ps img_width img_height = [X0, Y0, X1, Y0, X1, Y1, X0, Y1]
              \<and> \<bar>X0 - of_int x0\<bar> \<le> rounding_bound x0 img_width * of_int img_width
              \<and> \<bar>X1 - of_int (x0 + width)\<bar>
                   \<le> rounding_bound (x0 + width) img_width * of_int img_width
              \<and> \<bar>Y0 - of_int y0\<bar> \<le> rounding_bound y0 img_height * of_int img_height
              \<and> \<bar>Y1 - of_int (y0 + height)\<bar>
                   \<le> rounding_bound (y0 + height) img_height * of_int img_height
              \<and> \<bar>(X1 - X0) - of_int width\<bar>
                   \<le> rounding_bound x0 img_width * of_int img_width
                     + rounding_bound (x0 + width) img_width * of_int img_width
              \<and> \<bar>(Y1 - Y0) - of_int height\<bar>
                   \<le> rounding_bound y0 img_height * of_int img_height
                     + rounding_bound (y0 + height) img_height * of_int img_height)"
      by blast
  qed
  from ex rt show ?thesis ..
qed

theorem rectangle_round_trip_witness:
  "(0 :: int) < 100
   \<and> (\<exists>ps. rectangle_to_polygon_normalized 0 0 10 10 100 100 = Inr ps)"
proof -
  have a: "(0 :: int) < 100" by simp
  have h: "\<bar>0 :: int\<bar> < 2 ^ 1023 * 100 \<and> \<bar>0 + 10 :: int\<bar> < 2 ^ 1023 * 100
          \<and> \<bar>0 :: int\<bar> < 2 ^ 1023 * 100 \<and> \<bar>0 + 10 :: int\<bar> < 2 ^ 1023 * 100"
    by simp
  note t = rectangle_round_trip [OF a a, where ?x0.0 = 0 and width = 10
      and ?y0.0 = 0 and height = 10]
  from t [THEN conjunct1] h
  have "\<exists>ps. rectangle_to_polygon_normalized 0 0 10 10 100 100 = Inr ps"
    by (rule mp)
  with a show ?thesis ..
qed

section \<open>A label line\<close>

text \<open>
  C5: for the ground-truth row \<open>(frame = 5, track = 2, x0 = 0, y0 = 0, width = 10,
  height = 10, flag = 1)\<close>, track 2 having category code 2, and an image of 100 by
  100, the label writer writes exactly the line
  \<open>2 0.0 0.0 0.1 0.0 0.1 0.1 0.0 0.1\<close> followed by a newline: the category code, then
  the eight normalized coordinates, separated by single spaces. This is the text that
  \<open>process_data\<close> leaves in \<open>000005.txt\<close> for the sequence made of this row, the role
  registry of C3 and the image \<open>000005.jpg\<close>.
\<close>

theorem label_line_of_player_row:
  "write_rows (Some 4) [(1, 1), (2, 2), (3, 2), (4, 0)] 100 100
     [\<lparr>row_frame_id = 5, row_track_id = 2, row_x0 = 0, row_y0 = 0, row_width = 10,
       row_height = 10, row_gt = 1\<rparr>] []
   = (None, ''2 0.0 0.0 0.1 0.0 0.1 0.1 0.0 0.1'' @ [CHR 0x0A])
   \<and> process_data
       [''Sequence'' \<mapsto>
          [''num_tracklets'' \<mapsto> ''4'', ''trackletid_1'' \<mapsto> ''goalkeeper;1'',
           ''trackletid_2'' \<mapsto> ''player;1'', ''trackletid_3'' \<mapsto> ''player;2'',
           ''trackletid_4'' \<mapsto> ''ball;1'']]
       [''Sequence'' \<mapsto> [''imwidth'' \<mapsto> ''100'', ''imheight'' \<mapsto> ''100'',
                         ''imext'' \<mapsto> ''.jpg'', ''imdir'' \<mapsto> ''img1'']]
       [\<lparr>row_frame_id = 5, row_track_id = 2, row_x0 = 0, row_y0 = 0, row_width = 10,
         row_height = 10, row_gt = 1\<rparr>]
       [''000005.jpg'']
       Map.empty
     = (None, [''000005.txt'' \<mapsto> ''2 0.0 0.0 0.1 0.0 0.1 0.1 0.0 0.1'' @ [CHR 0x0A]])"
proof -
  let ?row = "\<lparr>row_frame_id = 5, row_track_id = 2, row_x0 = 0, row_y0 = 0, row_width = 10,
       row_height = 10, row_gt = 1\<rparr>"
  let ?idm = "[(1 :: int, 1 :: int), (2, 2), (3, 2), (4, 0)]"
  have w: "write_rows (Some 4) ?idm 100 100 [?row] []
      = (None, ''2 0.0 0.0 0.1 0.0 0.1 0.1 0.0 0.1'' @ [CHR 0x0A])"
    by (simp add: dict_get_def rectangle_unit_square label_line_example)
  have g: "parse_gameinfo
        [''Sequence'' \<mapsto>
           [''num_tracklets'' \<mapsto> ''4'', ''trackletid_1'' \<mapsto> ''goalkeeper;1'',
            ''trackletid_2'' \<mapsto> ''player;1'', ''trackletid_3'' \<mapsto> ''player;2'',
            ''trackletid_4'' \<mapsto> ''ball;1'']]
       = Inr ([(1, ''goalkeeper;1''), (2, ''player;1''), (3, ''player;2''), (4, ''ball;1'')], ?idm)"
    by (simp add: parse_gameinfo_def get_section_def get_option_def py_lower_def lower_char_def
        py_int_def py_strip_def is_space_def parse_unsigned_def is_digit_def digit_val_def
        upto.simps tracklet_key_def str_int_def str_nat.simps digit_char_def role_category_def)
  have b: "find_ball_id [(1, ''goalkeeper;1''), (2, ''player;1''), (3, ''player;2''), (4, ''ball;1'')]
      = Some 4"
    by (simp add: find_ball_id_def)
  have i100: "py_int ''100'' = Inr 100"
    by (simp add: py_int_def py_strip_def is_space_def parse_unsigned_def is_digit_def
        digit_val_def)
  have i5: "py_int ''000005'' = Inr 5"
    by (simp add: py_int_def py_strip_def is_space_def parse_unsigned_def is_digit_def
        digit_val_def)
  have sp: "split_first ''000005.jpg'' ''.jpg'' = Inr ''000005''"
    by (simp add: split_first_def)
  have f: "process_image (Some 4) ?idm 100 100 ''.jpg'' [?row] ''000005.jpg'' Map.empty
      = (None, [''000005.txt'' \<mapsto> ''2 0.0 0.0 0.1 0.0 0.1 0.1 0.0 0.1'' @ [CHR 0x0A]])"
    by (simp add: process_image_def sp i5 read_csv_def get_group_def w del: write_rows.simps)
  have l: "process_images (Some 4) ?idm 100 100 ''.jpg'' [?row] [''000005.jpg''] Map.empty
      = (None, [''000005.txt'' \<mapsto> ''2 0.0 0.0 0.1 0.0 0.1 0.1 0.0 0.1'' @ [CHR 0x0A]])"
    by (simp add: f)
  have p: "process_data
       [''Sequence'' \<mapsto>
          [''num_tracklets'' \<mapsto> ''4'', ''trackletid_1'' \<mapsto> ''goalkeeper;1'',
           ''trackletid_2'' \<mapsto> ''player;1'', ''trackletid_3'' \<mapsto> ''player;2'',
           ''trackletid_4'' \<mapsto> ''ball;1'']]
       [''Sequence'' \<mapsto> [''imwidth'' \<mapsto> ''100'', ''imheight'' \<mapsto> ''100'',
                         ''imext'' \<mapsto> ''.jpg'', ''imdir'' \<mapsto> ''img1'']]
       [?row] [''000005.jpg''] Map.empty
     = (None, [''000005.txt'' \<mapsto> ''2 0.0 0.0 0.1 0.0 0.1 0.1 0.0 0.1'' @ [CHR 0x0A]])"
    by (simp add: process_data_def g b get_section_def get_option_def bind_err_def
        py_lower_def lower_char_def i100 Let_def l del: process_images.simps)
  from w p show ?thesis ..
qed

end
